theory Spec2Isabelle
  imports Main "HOL-Library.Word"
begin

section \<open>The command shell of arduino-serial (src/arduino-serial.c)\<close>

text \<open>
  The theory embeds \<^verbatim>\<open>main\<close> of \<^verbatim>\<open>arduino-serial.c\<close>: the loop over the options that
  \<^verbatim>\<open>getopt_long\<close> returns, one \<^verbatim>\<open>switch\<close> case per option. The local variables of
  \<^verbatim>\<open>main\<close> are a record; every call that leaves the program (console output, the
  functions of \<^verbatim>\<open>arduino-serial-lib\<close>, \<^verbatim>\<open>tcdrain\<close>, \<^verbatim>\<open>fopen\<close>, ...) is appended to a
  trace of events, in program order, together with what the call returned.
  \<^verbatim>\<open>exit\<close> ends the run with its status.
\<close>

subsection \<open>C values\<close>

type_synonym u8 = "8 word"

definition nl :: string where
  "nl = [CHR 0x0A]"

definition dq :: string where
  "dq = [CHR 0x22]"

text \<open>Conversion of a value to \<^verbatim>\<open>int\<close> (32 bits) and to \<^verbatim>\<open>short\<close> (16 bits), two's
  complement wrap-around written out.\<close>

definition to_int :: "int \<Rightarrow> int" where
  "to_int x = (x + 2 ^ 31) mod 2 ^ 32 - 2 ^ 31"

definition to_short :: "int \<Rightarrow> int" where
  "to_short x = (x + 2 ^ 15) mod 2 ^ 16 - 2 ^ 15"

definition in_int_range :: "int \<Rightarrow> bool" where
  "in_int_range x = (- (2 ^ 31) \<le> x \<and> x < 2 ^ 31)"

text \<open>The remainder operator \<^verbatim>\<open>%\<close> of C: the quotient truncates towards zero, so the
  remainder has the sign of the dividend.\<close>

definition c_rem :: "int \<Rightarrow> int \<Rightarrow> int" where
  "c_rem x y = sgn x * (\<bar>x\<bar> mod \<bar>y\<bar>)"

text \<open>\<^verbatim>\<open>strtol(s, NULL, 10)\<close> of the C library, \<^verbatim>\<open>long\<close> of 64 bits: white space is
  skipped, then an optional sign, then the longest run of decimal digits; no digits give 0,
  a value out of range gives \<^verbatim>\<open>LONG_MAX\<close> or \<^verbatim>\<open>LONG_MIN\<close>.\<close>

definition isspace :: "char \<Rightarrow> bool" where
  "isspace c = ((of_char c :: nat) \<in> {32, 9, 10, 11, 12, 13})"

definition digit_val :: "char \<Rightarrow> nat option" where
  "digit_val c =
     (let k = (of_char c :: nat) in if 48 \<le> k \<and> k \<le> 57 then Some (k - 48) else None)"

fun strtol_digits :: "nat \<Rightarrow> string \<Rightarrow> nat" where
  "strtol_digits acc [] = acc"
| "strtol_digits acc (c # cs) =
     (case digit_val c of
        None \<Rightarrow> acc
      | Some d \<Rightarrow> strtol_digits (10 * acc + d) cs)"

definition strtol :: "string \<Rightarrow> int" where
  "strtol str =
     (let t = dropWhile isspace str;
          neg = (t \<noteq> [] \<and> hd t = CHR ''-'');
          u = (if t \<noteq> [] \<and> (hd t = CHR ''-'' \<or> hd t = CHR ''+'') then tl t else t);
          m = int (strtol_digits 0 u)
      in if neg then max (- (2 ^ 63)) (- m) else min (2 ^ 63 - 1) m)"

text \<open>The conversions of \<^verbatim>\<open>printf\<close>: \<^verbatim>\<open>%d\<close>, \<^verbatim>\<open>%02x\<close> of a byte and \<^verbatim>\<open>%c\<close> of a
  byte.\<close>

definition digit_char :: "nat \<Rightarrow> char" where
  "digit_char d = (if d < 16 then ''0123456789abcdef'' ! d else CHR ''?'')"

fun show_nat :: "nat \<Rightarrow> string" where
  "show_nat k = (if k < 10 then [digit_char k] else show_nat (k div 10) @ [digit_char (k mod 10)])"

definition show_int :: "int \<Rightarrow> string" where
  "show_int i = (if i < 0 then CHR ''-'' # show_nat (nat (- i)) else show_nat (nat i))"

definition hex2 :: "u8 \<Rightarrow> string" where
  "hex2 x = [digit_char (unat x div 16), digit_char (unat x mod 16)]"

definition byte_char :: "u8 \<Rightarrow> char" where
  "byte_char x = char_of (unat x)"

text \<open>\<^verbatim>\<open>optarg[0]\<close>: the first byte of the argument, which for the empty argument is
  the terminating NUL.\<close>

definition optarg0 :: "string \<Rightarrow> char" where
  "optarg0 optarg = (case optarg of [] \<Rightarrow> CHR 0x00 | c # _ \<Rightarrow> c)"

subsection \<open>Events, environment and state\<close>

text \<open>
  One event per call that leaves \<^verbatim>\<open>main\<close>. The last arguments of an event of a library
  call are what the call returned: the return code and, for a read through a pointer, the
  byte it stored (\<open>None\<close> when it stored nothing) or the string it left in the buffer.
\<close>

datatype event =
    Stdout string                         \<comment> \<open>\<^verbatim>\<open>printf\<close>\<close>
  | Stderr string                         \<comment> \<open>\<^verbatim>\<open>fprintf(stderr, ...)\<close>\<close>
  | Perror string                         \<comment> \<open>\<^verbatim>\<open>perror\<close>\<close>
  | UsageText                             \<comment> \<open>the help message printed by \<^verbatim>\<open>usage\<close>\<close>
  | Stats int                             \<comment> \<open>the line "completed file read/input (a bytes) ...";
                                              the elapsed time is left out\<close>
  | Usleep int                            \<comment> \<open>\<^verbatim>\<open>usleep(n * 1000)\<close>: the argument as the
                                              \<^verbatim>\<open>useconds_t\<close> (unsigned, 32 bits) it is
                                              converted to\<close>
  | Init string int int                   \<comment> \<open>\<^verbatim>\<open>serialport_init(port, baud)\<close>, result\<close>
  | Close int                             \<comment> \<open>\<^verbatim>\<open>serialport_close(fd)\<close>\<close>
  | Flush int                             \<comment> \<open>\<^verbatim>\<open>serialport_flush(fd)\<close>\<close>
  | WriteByte int u8 int                  \<comment> \<open>\<^verbatim>\<open>serialport_writebyte(fd, b)\<close>, result\<close>
  | Write int string int                  \<comment> \<open>\<^verbatim>\<open>serialport_write(fd, str)\<close>, result\<close>
  | ReadByte int int int "u8 option"      \<comment> \<open>\<^verbatim>\<open>serialport_read_byte(fd, &b, timeout)\<close>, result, stored\<close>
  | ReadUntil int char int int int string \<comment> \<open>\<^verbatim>\<open>serialport_read_until(fd, buf, eol, max, timeout)\<close>,
                                              result, buffer\<close>
  | ReadByteFile int int "u8 option"      \<comment> \<open>\<^verbatim>\<open>serialport_read_byte_file(ifile, &b, timeout)\<close>,
                                              result, stored\<close>
  | Tcdrain int                           \<comment> \<open>\<^verbatim>\<open>tcdrain(fd)\<close>\<close>
  | Fopen string bool                     \<comment> \<open>\<^verbatim>\<open>fopen(name, "r")\<close>, whether it gave a stream\<close>
  | Fclose                                \<comment> \<open>\<^verbatim>\<open>fclose(ifile)\<close>\<close>
  | Open string int                       \<comment> \<open>\<^verbatim>\<open>open(name, O_WRONLY | O_CREAT | O_TRUNC, 0666)\<close>, result\<close>
  | CloseFd int                           \<comment> \<open>\<^verbatim>\<open>close(ofile)\<close>\<close>
  | Fgets "string option"                 \<comment> \<open>\<^verbatim>\<open>fgets(buf, buf_max, stdin)\<close>, the line or NULL\<close>

text \<open>
  The functions of \<^verbatim>\<open>arduino-serial-lib.c\<close> and of the operating system are not part of
  \<^verbatim>\<open>arduino-serial.c\<close>; what they return is a parameter of the model. Each may depend on
  the arguments of the call and on everything that happened before it (the trace so far).
  A file opened by \<^verbatim>\<open>fopen\<close> is given by the outcomes of the successive
  \<^verbatim>\<open>serialport_read_byte_file\<close> calls on it: return code and stored byte.
\<close>

type_synonym read_outcome = "int \<times> u8 option"

record env =
  serialport_init :: "event list \<Rightarrow> string \<Rightarrow> int \<Rightarrow> int"
  serialport_writebyte :: "event list \<Rightarrow> int \<Rightarrow> u8 \<Rightarrow> int"
  serialport_write :: "event list \<Rightarrow> int \<Rightarrow> string \<Rightarrow> int"
  serialport_read_byte :: "event list \<Rightarrow> int \<Rightarrow> int \<Rightarrow> read_outcome"
  serialport_read_until :: "event list \<Rightarrow> int \<Rightarrow> char \<Rightarrow> int \<Rightarrow> int \<Rightarrow> int \<times> string"
  fopen :: "event list \<Rightarrow> string \<Rightarrow> read_outcome list option"
  open_file :: "event list \<Rightarrow> string \<Rightarrow> int"
  stdin_lines :: "string list"

text \<open>
  The variables of \<^verbatim>\<open>main\<close>. \<open>var_n\<close> and \<open>var_b\<close> are the variables \<^verbatim>\<open>n\<close> and \<^verbatim>\<open>b\<close>;
  \<open>stdin\<close> holds the lines that \<^verbatim>\<open>fgets\<close> has not returned yet. The buffer \<^verbatim>\<open>buf\<close> is
  written before every use and is therefore local to each case.
\<close>

record state =
  fd :: int
  serialport :: string
  baudrate :: int
  quiet :: bool
  eolchar :: char
  timeout :: int
  rc :: int
  var_n :: int
  var_b :: u8
  stdin :: "string list"
  trace :: "event list"

text \<open>
  How a step ends: the loop goes on, the process has called \<^verbatim>\<open>exit\<close> with a status, the
  process is caught in a loop that never ends, or the step has undefined behaviour in C
  (a \<^verbatim>\<open>strcpy\<close> or \<^verbatim>\<open>sprintf\<close> beyond the 256 bytes of its buffer, an overflow of
  \<^verbatim>\<open>n * 1000\<close>).
\<close>

datatype result = Running state | Exited int state | Hangs | Undefined

definition buf_max :: nat where
  "buf_max = 256"

definition emit :: "event \<Rightarrow> state \<Rightarrow> state" where
  "emit e s = s\<lparr>trace := trace s @ [e]\<rparr>"

definition say :: "string \<Rightarrow> state \<Rightarrow> state" where
  \<comment> \<open>\<^verbatim>\<open>if (!quiet) printf(...)\<close>\<close>
  "say msg s = (if quiet s then s else emit (Stdout msg) s)"

definition usage :: "state \<Rightarrow> result" where
  "usage s = Exited 0 (emit UsageText s)"

definition error :: "string \<Rightarrow> state \<Rightarrow> result" where
  "error msg s = Exited 1 (emit (Stderr (msg @ nl)) s)"

definition store :: "u8 option \<Rightarrow> u8 \<Rightarrow> u8" where
  \<comment> \<open>the byte behind a pointer after a read that may have stored through it\<close>
  "store st old = (case st of None \<Rightarrow> old | Some x \<Rightarrow> x)"

subsection \<open>The file relay of option f\<close>

text \<open>
  Modelled from the spec: \<^verbatim>\<open>serialport_read_byte_file\<close> (its body is in
  \<^verbatim>\<open>arduino-serial-lib.c\<close>, which is not among the sources). The calls on one stream
  return the outcomes of the file in turn; a file is finite, and once its outcomes are used
  up a call reports end-of-file, return code 2, and stores nothing. A source that never
  comes to an end (a FIFO, a device) is outside the model, and with it a
  \<^verbatim>\<open>do ... while\<close> loop that never ends: no theorem below says that a run ends.
\<close>

definition serialport_read_byte_file :: "read_outcome list \<Rightarrow> read_outcome \<times> read_outcome list" where
  "serialport_read_byte_file ifile =
     (case ifile of [] \<Rightarrow> ((2, None), []) | r # rest \<Rightarrow> (r, rest))"

text \<open>
  One pass through the body of the \<^verbatim>\<open>do ... while (rc == 0)\<close> loop, given the outcome
  of its read. The result says whether the loop goes on: it stops at \<^verbatim>\<open>break\<close> and when
  the write returned something other than 0. \<open>a\<close> is the \<^verbatim>\<open>short\<close> counter.
\<close>

definition stream_body :: "env \<Rightarrow> read_outcome \<Rightarrow> state \<Rightarrow> int \<Rightarrow> bool \<times> state \<times> int" where
  "stream_body e r s a =
     (let s1 = (emit (ReadByteFile 10000 (fst r) (snd r)) s)
                 \<lparr>rc := fst r, var_b := store (snd r) (var_b s)\<rparr>;
          s2 = emit (Stdout [byte_char (var_b s1)]) s1
      in if rc s2 < 0 then
           (False, emit (Stdout (''input loop broke unexpectedly '' @ show_int (rc s2) @ nl)) s2, a)
         else if rc s2 = 2 then
           (False, emit (Flush (fd s2)) (emit (Stdout (''end of file reached'' @ nl)) s2), a)
         else
           let w = serialport_writebyte e (trace s2) (fd s2) (var_b s2);
               s3 = (emit (WriteByte (fd s2) (var_b s2) w) s2)\<lparr>rc := w\<rparr>;
               s4 = (if c_rem a 60 = 0 then emit (Tcdrain 1) (emit (Tcdrain (fd s3)) s3) else s3)
           in (rc s4 = 0, s4, to_short (a + 1)))"

function stream_loop :: "env \<Rightarrow> read_outcome list \<Rightarrow> state \<Rightarrow> int \<Rightarrow> state \<times> int" where
  "stream_loop e ifile s a =
     (let (r, rest) = serialport_read_byte_file ifile;
          (go, s', a') = stream_body e r s a
      in if go then stream_loop e rest s' a' else (s', a'))"
  by pat_completeness auto
termination
proof (relation "measure (\<lambda>(e, ifile, s, a). length ifile)")
  show "wf (measure (\<lambda>(e, ifile, s, a). length ifile))"
    by simp
next
  fix e :: env and ifile :: "read_outcome list" and s :: state and a :: int
    and x r rest y go xa s' a'
  assume rd: "x = serialport_read_byte_file ifile" "(r, rest) = x"
    and bd: "y = stream_body e r s a" "(go, xa) = y" "(s', a') = xa" and go: "go"
  have "ifile \<noteq> []"
  proof
    assume "ifile = []"
    with rd have "r = (2, None)"
      by (simp add: serialport_read_byte_file_def)
    moreover have "\<not> fst (stream_body e (2, None) s a)"
      by (simp add: stream_body_def Let_def emit_def)
    ultimately show False
      using bd go by (metis fst_conv)
  qed
  with rd show "((e, rest, s', a'), (e, ifile, s, a)) \<in> measure (\<lambda>(e, ifile, s, a). length ifile)"
    by (cases ifile) (auto simp: serialport_read_byte_file_def)
qed

declare stream_loop.simps [simp del]

subsection \<open>The output relay of option v\<close>

text \<open>
  The \<^verbatim>\<open>while (rc <= 0)\<close> loop of case v. Nothing bounds the number of its passes (the
  port may deliver bytes forever while the writes to the file keep returning 0 or less),
  so the loop is a partial function and \<open>None\<close> stands for a run that never leaves it.
\<close>

partial_function (option) relay_loop :: "env \<Rightarrow> int \<Rightarrow> state \<Rightarrow> int \<Rightarrow> (state \<times> int) option" where
  "relay_loop e ofile s a =
     (if rc s \<le> 0 then
        (let r = serialport_read_byte e (trace s) (fd s) 5000;
             s1 = (emit (ReadByte (fd s) 5000 (fst r) (snd r)) s)
                    \<lparr>rc := fst r, var_b := store (snd r) (var_b s)\<rparr>
         in if rc s1 \<le> 0 then Some (emit (Tcdrain ofile) s1, a)
            else
              let w = serialport_writebyte e (trace s1) ofile (var_b s1);
                  s2 = (emit (WriteByte ofile (var_b s1) w) s1)\<lparr>rc := w\<rparr>;
                  s3 = emit (Stdout [byte_char (var_b s2)]) s2;
                  s4 = (if c_rem a 60 = 0 then emit (Tcdrain 1) (emit (Tcdrain ofile) s3) else s3)
              in relay_loop e ofile s4 (to_short (a + 1)))
      else Some (s, a))"

declare relay_loop.simps [code]

subsection \<open>Sending standard input, option i\<close>

text \<open>
  The \<^verbatim>\<open>while (fgets(buf, buf_max, stdin))\<close> loop: one write per line read. The lines that
  \<^verbatim>\<open>fgets\<close> will return are a list: the model covers a standard input that comes to an
  end, and no theorem below says that a run ends.
\<close>

fun send_lines :: "env \<Rightarrow> string list \<Rightarrow> state \<Rightarrow> state" where
  "send_lines e [] s = (emit (Fgets None) s)\<lparr>stdin := []\<rparr>"
| "send_lines e (buf # rest) s =
     (let s1 = (emit (Fgets (Some buf)) s)\<lparr>stdin := rest\<rparr>;
          s2 = say (''send string:'' @ buf @ nl) s1;
          w = serialport_write e (trace s2) (fd s2) buf
      in send_lines e rest ((emit (Write (fd s2) buf w) s2)\<lparr>rc := w\<rparr>))"

subsection \<open>The switch over the options\<close>

text \<open>
  What \<^verbatim>\<open>getopt_long\<close> returns: the option character and, for an option that takes an
  argument, \<^verbatim>\<open>optarg\<close>. The constructors are named after the option characters:
  \<open>Opt_q\<close> is \<^verbatim>\<open>'q'\<close>, \<open>Opt_S\<close> is \<^verbatim>\<open>'S'\<close>, \<open>Opt_F\<close> is \<^verbatim>\<open>'F'\<close>; \<open>Opt_other\<close> is any
  value without a case in the switch (\<^verbatim>\<open>'?'\<close> for an unknown option; what
  \<^verbatim>\<open>getopt_long\<close> itself prints about it is not part of the trace), and \<^verbatim>\<open>case '0'\<close>
  is \<open>Opt_0\<close>. Each case of the switch is a definition of its own; the checks for
  undefined behaviour stand where the C statement stands.
\<close>

datatype opt =
    Opt_0 | Opt_q | Opt_e string | Opt_t string | Opt_d string | Opt_h | Opt_b string
  | Opt_p string | Opt_n string | Opt_f string | Opt_v string | Opt_S string | Opt_s string
  | Opt_i | Opt_y | Opt_r | Opt_F | Opt_other

definition case_e :: "string \<Rightarrow> state \<Rightarrow> result" where
  "case_e optarg s =
     (let s1 = s\<lparr>eolchar := optarg0 optarg\<rparr>
      in Running (say (''eolchar set to '' @ [CHR 0x27, eolchar s1, CHR 0x27] @ nl) s1))"

definition case_t :: "string \<Rightarrow> state \<Rightarrow> result" where
  "case_t optarg s =
     (let s1 = s\<lparr>timeout := to_int (strtol optarg)\<rparr>
      in Running (say (''timeout set to '' @ show_int (timeout s1) @ '' millisecs'' @ nl) s1))"

definition case_d :: "string \<Rightarrow> state \<Rightarrow> result" where
  "case_d optarg s =
     (let s1 = s\<lparr>var_n := to_int (strtol optarg)\<rparr>;
          s2 = say (''sleep '' @ show_int (var_n s1) @ '' millisecs'' @ nl) s1
      in if in_int_range (var_n s2 * 1000)
         then Running (emit (Usleep ((var_n s2 * 1000) mod 2 ^ 32)) s2)
         else Undefined)"

definition case_p :: "env \<Rightarrow> string \<Rightarrow> state \<Rightarrow> result" where
  "case_p e optarg s =
     (let s1 = (if fd s \<noteq> - 1
                then say (''closed port '' @ serialport s @ nl) (emit (Close (fd s)) s)
                else s)
      in if buf_max \<le> length optarg then Undefined
         else
           let s2 = s1\<lparr>serialport := optarg\<rparr>;
               r = serialport_init e (trace s2) optarg (baudrate s2);
               s3 = (emit (Init optarg (baudrate s2) r) s2)\<lparr>fd := r\<rparr>
           in if fd s3 = - 1 then error ''couldn't open port'' s3
              else Running (emit (Flush (fd s3))
                             (say (''opened port '' @ serialport s3 @ nl) s3)))"

definition case_n :: "env \<Rightarrow> string \<Rightarrow> state \<Rightarrow> result" where
  "case_n e optarg s =
     (if fd s = - 1 then error ''serial port not opened'' s
      else
        let s1 = s\<lparr>var_n := to_int (strtol optarg)\<rparr>;
            x = (word_of_int (var_n s1) :: u8);
            w = serialport_writebyte e (trace s1) (fd s1) x;
            s2 = (emit (WriteByte (fd s1) x w) s1)\<lparr>rc := w\<rparr>
        in if rc s2 = - 1 then error ''error writing'' s2 else Running s2)"

definition case_f :: "env \<Rightarrow> string \<Rightarrow> state \<Rightarrow> result" where
  "case_f e optarg s =
     (if fd s = - 1 then error ''serial port not opened'' s
      else
        case fopen e (trace s) optarg of
          None \<Rightarrow>
            Running (emit (Perror ''error opening input file'') (emit (Fopen optarg False) s))
        | Some ifile \<Rightarrow>
            let s1 = say (''opened file '' @ dq @ optarg @ dq @ nl) (emit (Fopen optarg True) s);
                s2 = emit (Flush (fd s1)) s1;
                (s3, a) = stream_loop e ifile s2 0;
                s4 = emit (Stdout nl) s3;
                s5 = (if quiet s4 then s4 else emit (Stats a) s4)
            in Running (emit Fclose s5))"

definition case_v :: "env \<Rightarrow> string \<Rightarrow> state \<Rightarrow> result" where
  "case_v e optarg s =
     (if fd s = - 1 then error ''serial port not opened'' s
      else
        let ofile = open_file e (trace s) optarg;
            s1 = emit (Open optarg ofile) s
        in if ofile < 0 then Running (emit (Perror ''error opening output file'') s1)
           else
             let s2 = say (''opened file '' @ dq @ optarg @ dq @ nl) s1;
                 s3 = say (CHR 0x09 # ''warning: 5 seconds to send file!'' @ nl) s2;
                 r = serialport_read_byte e (trace s3) (fd s3) 5000;
                 s4 = (emit (ReadByte (fd s3) 5000 (fst r) (snd r)) s3)
                        \<lparr>rc := fst r, var_b := store (snd r) (var_b s3)\<rparr>
             in if rc s4 \<le> 0 then
                  Running (emit (CloseFd ofile) (emit (Stdout (''error: no input found.'' @ nl)) s4))
                else
                  let s5 = emit (Stdout (''found input.'' @ nl)) s4;
                      w = serialport_writebyte e (trace s5) ofile (var_b s5);
                      s6 = emit (Tcdrain ofile) ((emit (WriteByte ofile (var_b s5) w) s5)\<lparr>rc := w\<rparr>)
                  in case relay_loop e ofile s6 1 of
                       None \<Rightarrow> Hangs
                     | Some (s7, a) \<Rightarrow>
                         Running (emit (CloseFd ofile) (say (''completed file save'' @ nl) s7)))"

definition case_s :: "env \<Rightarrow> bool \<Rightarrow> string \<Rightarrow> state \<Rightarrow> result" where
  \<comment> \<open>cases S and s share their code; \<open>line\<close> is \<^verbatim>\<open>opt=='S'\<close>\<close>
  "case_s e line optarg s =
     (if fd s = - 1 then error ''serial port not opened'' s
      else
        let buf = (if line then optarg @ nl else optarg)
        in if buf_max \<le> length buf then Undefined
           else
             let s1 = say (''send string:'' @ buf @ nl) s;
                 w = serialport_write e (trace s1) (fd s1) buf;
                 s2 = (emit (Write (fd s1) buf w) s1)\<lparr>rc := w\<rparr>
             in if rc s2 = - 1 then error ''error writing'' s2 else Running s2)"

definition case_i :: "env \<Rightarrow> state \<Rightarrow> result" where
  "case_i e s =
     (let s1 = s\<lparr>rc := - 1\<rparr>
      in if fd s1 = - 1 then error ''serial port not opened'' s1
         else
           let s2 = send_lines e (stdin s1) s1
           in if rc s2 = - 1 then error ''error writing'' s2 else Running s2)"

definition case_y :: "env \<Rightarrow> state \<Rightarrow> result" where
  "case_y e s =
     (if fd s = - 1 then error ''serial port not opened'' s
      else
        let r = serialport_read_byte e (trace s) (fd s) (timeout s);
            buf0 = store (snd r) 0;
            s1 = emit (ReadByte (fd s) (timeout s) (fst r) (snd r)) s;
            s2 = say ''read byte:'' s1
        in Running (emit (Stdout (''0x'' @ hex2 buf0 @ nl)) s2))"

definition case_r :: "env \<Rightarrow> state \<Rightarrow> result" where
  "case_r e s =
     (if fd s = - 1 then error ''serial port not opened'' s
      else
        let r = serialport_read_until e (trace s) (fd s) (eolchar s) (int buf_max) (timeout s);
            buf = snd r;
            s1 = emit (ReadUntil (fd s) (eolchar s) (int buf_max) (timeout s) (fst r) buf) s;
            s2 = say ''read string:'' s1
        in Running (emit (Stdout (buf @ nl)) s2))"

definition case_F :: "state \<Rightarrow> result" where
  "case_F s =
     (if fd s = - 1 then error ''serial port not opened'' s
      else Running (emit (Flush (fd s)) (say (''flushing receive buffer'' @ nl) s)))"

fun step :: "env \<Rightarrow> state \<Rightarrow> opt \<Rightarrow> result" where
  "step e s Opt_0 = Running s"
| "step e s Opt_q = Running (s\<lparr>quiet := True\<rparr>)"
| "step e s (Opt_e optarg) = case_e optarg s"
| "step e s (Opt_t optarg) = case_t optarg s"
| "step e s (Opt_d optarg) = case_d optarg s"
| "step e s Opt_h = usage s"
| "step e s (Opt_b optarg) = Running (s\<lparr>baudrate := to_int (strtol optarg)\<rparr>)"
| "step e s (Opt_p optarg) = case_p e optarg s"
| "step e s (Opt_n optarg) = case_n e optarg s"
| "step e s (Opt_f optarg) = case_f e optarg s"
| "step e s (Opt_v optarg) = case_v e optarg s"
| "step e s (Opt_S optarg) = case_s e True optarg s"
| "step e s (Opt_s optarg) = case_s e False optarg s"
| "step e s Opt_i = case_i e s"
| "step e s Opt_y = case_y e s"
| "step e s Opt_r = case_r e s"
| "step e s Opt_F = case_F s"
| "step e s Opt_other = Running s"

text \<open>
  The \<^verbatim>\<open>while(1)\<close> loop: \<^verbatim>\<open>getopt_long\<close> returns the options in turn and then -1, where
  the loop is left and \<^verbatim>\<open>main\<close> calls \<^verbatim>\<open>exit(EXIT_SUCCESS)\<close>.
\<close>

fun run :: "env \<Rightarrow> state \<Rightarrow> opt list \<Rightarrow> result" where
  "run e s [] = Exited 0 s"
| "run e s (opt # opts) =
     (case step e s opt of
        Running s' \<Rightarrow> run e s' opts
      | res \<Rightarrow> res)"

text \<open>
  The variables at the start of \<^verbatim>\<open>main\<close>. \<^verbatim>\<open>b\<close> has no initialiser and may be printed
  before it is written, so its first value \<open>b_init\<close> is a parameter; \<^verbatim>\<open>serialport\<close>, \<^verbatim>\<open>rc\<close>
  and \<^verbatim>\<open>n\<close> are written before they are read.
\<close>

definition init_state :: "env \<Rightarrow> u8 \<Rightarrow> state" where
  "init_state e b_init =
     \<lparr>fd = - 1, serialport = [], baudrate = 9600, quiet = False, eolchar = CHR 0x0A,
      timeout = 5000, rc = 0, var_n = 0, var_b = b_init, stdin = stdin_lines e, trace = []\<rparr>"

definition main :: "env \<Rightarrow> u8 \<Rightarrow> nat \<Rightarrow> opt list \<Rightarrow> result" where
  "main e b_init argc opts =
     (if argc = 1 then usage (init_state e b_init) else run e (init_state e b_init) opts)"

section \<open>Reading a run\<close>

text \<open>
  What a run leaves behind: its trace and, when the process called \<^verbatim>\<open>exit\<close>, the exit
  status. A run that hangs or is undefined has neither.
\<close>

fun trace_of :: "result \<Rightarrow> event list" where
  "trace_of (Running s) = trace s"
| "trace_of (Exited k s) = trace s"
| "trace_of Hangs = []"
| "trace_of Undefined = []"

fun status_of :: "result \<Rightarrow> int option" where
  "status_of (Exited k s) = Some k"
| "status_of res = None"

text \<open>
  What a user of the shell can observe: the exit status and what went to the console
  (standard output and standard error), in order.
\<close>

fun is_console :: "event \<Rightarrow> bool" where
  "is_console (Stdout msg) = True"
| "is_console (Stderr msg) = True"
| "is_console (Perror msg) = True"
| "is_console UsageText = True"
| "is_console (Stats a) = True"
| "is_console ev = False"

definition console :: "event list \<Rightarrow> event list" where
  "console tr = filter is_console tr"

definition observable :: "result \<Rightarrow> int option \<times> event list" where
  "observable res = (status_of res, console (trace_of res))"

fun printed :: "event list \<Rightarrow> string" where
  "printed [] = []"
| "printed (Stdout msg # es) = msg @ printed es"
| "printed (ev # es) = printed es"

text \<open>\<^verbatim>\<open>error\<close> is the only writer to standard error: a trace has a \<open>Stderr\<close> event
  exactly when \<^verbatim>\<open>error\<close> was called.\<close>

fun is_Stderr :: "event \<Rightarrow> bool" where
  "is_Stderr (Stderr msg) = True"
| "is_Stderr ev = False"

definition error_reported :: "event list \<Rightarrow> bool" where
  "error_reported tr = list_ex is_Stderr tr"



text \<open>The time-outs handed to \<^verbatim>\<open>serialport_read_byte\<close> and \<^verbatim>\<open>serialport_read_until\<close>,
  in call order, and whether none of them is negative.\<close>

fun read_timeouts :: "event list \<Rightarrow> int list" where
  "read_timeouts [] = []"
| "read_timeouts (ReadByte h t r st # es) = t # read_timeouts es"
| "read_timeouts (ReadUntil h c m t r buf # es) = t # read_timeouts es"
| "read_timeouts (ev # es) = read_timeouts es"

definition timeouts_nonneg :: "event list \<Rightarrow> bool" where
  "timeouts_nonneg tr = list_all (\<lambda>t. 0 \<le> t) (read_timeouts tr)"

text \<open>The bytes handed to \<^verbatim>\<open>serialport_writebyte\<close> on handle \<open>h\<close>, in call order.\<close>

fun wrote :: "int \<Rightarrow> event list \<Rightarrow> u8 list" where
  "wrote h [] = []"
| "wrote h (WriteByte h' x r # es) = (if h' = h then x # wrote h es else wrote h es)"
| "wrote h (ev # es) = wrote h es"

subsection \<open>Serial handles in a trace\<close>

text \<open>
  A handle is live from the \<^verbatim>\<open>serialport_init\<close> that returned it (a result other than
  -1) to the \<^verbatim>\<open>serialport_close\<close> on it. \<open>one_live cur tr\<close> walks the trace \<open>tr\<close> with
  the live handle \<open>cur\<close>: every open finds no handle live, every close is of the live
  handle. \<open>live_after\<close> is the handle live at the end.
\<close>

fun live_after :: "int option \<Rightarrow> event list \<Rightarrow> int option" where
  "live_after cur [] = cur"
| "live_after cur (Init port baud r # es) = live_after (if r = - 1 then None else Some r) es"
| "live_after cur (Close h # es) = live_after None es"
| "live_after cur (ev # es) = live_after cur es"

fun one_live :: "int option \<Rightarrow> event list \<Rightarrow> bool" where
  "one_live cur [] = True"
| "one_live cur (Init port baud r # es) =
     (cur = None \<and> one_live (if r = - 1 then None else Some r) es)"
| "one_live cur (Close h # es) = (cur = Some h \<and> one_live None es)"
| "one_live cur (ev # es) = one_live cur es"

text \<open>
  \<open>opens_flushed\<close>: after every successful \<^verbatim>\<open>serialport_init\<close> the next call that
  leaves the program, console output aside, is \<^verbatim>\<open>serialport_flush\<close> on the handle it
  returned.
\<close>

fun flush_next :: "int \<Rightarrow> event list \<Rightarrow> bool" where
  "flush_next h [] = False"
| "flush_next h (Stdout msg # es) = flush_next h es"
| "flush_next h (Flush h' # es) = (h' = h)"
| "flush_next h (ev # es) = False"

fun opens_flushed :: "event list \<Rightarrow> bool" where
  "opens_flushed [] = True"
| "opens_flushed (Init port baud r # es) = ((r = - 1 \<or> flush_next r es) \<and> opens_flushed es)"
| "opens_flushed (ev # es) = opens_flushed es"

text \<open>
  \<open>closes_flushed\<close> is the reading of "a handle is flushed before it is closed": the
  last call on a handle before its \<^verbatim>\<open>serialport_close\<close> is a \<^verbatim>\<open>serialport_flush\<close>.
  The first argument is the trace already walked.
\<close>

fun handle_of :: "event \<Rightarrow> int option" where
  "handle_of (Init port baud r) = Some r"
| "handle_of (Close h) = Some h"
| "handle_of (Flush h) = Some h"
| "handle_of (WriteByte h x r) = Some h"
| "handle_of (Write h str r) = Some h"
| "handle_of (ReadByte h t r st) = Some h"
| "handle_of (ReadUntil h c m t r buf) = Some h"
| "handle_of (Tcdrain h) = Some h"
| "handle_of ev = None"

definition last_use :: "int \<Rightarrow> event list \<Rightarrow> event option" where
  "last_use h tr =
     (case filter (\<lambda>ev. handle_of ev = Some h) tr of [] \<Rightarrow> None | x # xs \<Rightarrow> Some (last (x # xs)))"

fun closes_flushed :: "event list \<Rightarrow> event list \<Rightarrow> bool" where
  "closes_flushed before [] = True"
| "closes_flushed before (Close h # es) =
     (last_use h before = Some (Flush h) \<and> closes_flushed (before @ [Close h]) es)"
| "closes_flushed before (ev # es) = closes_flushed (before @ [ev]) es"

subsection \<open>The trace of a file relay\<close>

text \<open>
  A data read of the file relay is a read whose return code is neither negative nor 2 and
  which stored a byte. \<open>relay_trace h k rbs\<close> is what the loop does for the data reads
  \<open>rbs\<close> (return code and byte) when \<open>k\<close> bytes went before and every write returns 0:
  read, echo, write, and the two \<^verbatim>\<open>tcdrain\<close> calls where the \<^verbatim>\<open>short\<close> counter is a
  multiple of 60 (\<open>drain_due\<close>). \<open>eof_trace\<close> is the pass that meets end-of-file.
\<close>

definition data_outcome :: "int \<times> u8 \<Rightarrow> read_outcome" where
  "data_outcome rx = (fst rx, Some (snd rx))"

definition drain_due :: "nat \<Rightarrow> bool" where
  "drain_due k = (c_rem (to_short (int k)) 60 = 0)"

fun relay_trace :: "int \<Rightarrow> nat \<Rightarrow> (int \<times> u8) list \<Rightarrow> event list" where
  "relay_trace h k [] = []"
| "relay_trace h k (rx # rbs) =
     [ReadByteFile 10000 (fst rx) (Some (snd rx)), Stdout [byte_char (snd rx)],
      WriteByte h (snd rx) 0]
     @ (if drain_due k then [Tcdrain h, Tcdrain 1] else [])
     @ relay_trace h (Suc k) rbs"

definition eof_trace :: "int \<Rightarrow> u8 option \<Rightarrow> u8 \<Rightarrow> event list" where
  "eof_trace h st x =
     [ReadByteFile 10000 2 st, Stdout [byte_char x], Stdout (''end of file reached'' @ nl), Flush h]"

text \<open>
  \<open>relay_by_60\<close> is \<open>relay_trace\<close> with the drains written as the claim has them: after the
  write, whenever the number \<open>k\<close> of bytes written before is a multiple of 60.
\<close>

fun relay_by_60 :: "int \<Rightarrow> nat \<Rightarrow> (int \<times> u8) list \<Rightarrow> event list" where
  "relay_by_60 h k [] = []"
| "relay_by_60 h k (rx # rbs) =
     [ReadByteFile 10000 (fst rx) (Some (snd rx)), Stdout [byte_char (snd rx)],
      WriteByte h (snd rx) 0]
     @ (if k mod 60 = 0 then [Tcdrain h, Tcdrain 1] else [])
     @ relay_by_60 h (Suc k) rbs"

text \<open>
  Where a trace drains handle \<open>h\<close>: \<open>drained_after h n tr\<close> lists, for every
  \<^verbatim>\<open>tcdrain(h)\<close> in \<open>tr\<close>, how many bytes had been handed to \<^verbatim>\<open>serialport_writebyte\<close>
  on \<open>h\<close> by then, \<open>n\<close> of them before \<open>tr\<close>.
\<close>

fun drained_after :: "int \<Rightarrow> nat \<Rightarrow> event list \<Rightarrow> nat list" where
  "drained_after h n [] = []"
| "drained_after h n (WriteByte h' x r # es) = drained_after h (if h' = h then Suc n else n) es"
| "drained_after h n (Tcdrain h' # es) =
     (if h' = h then n # drained_after h n es else drained_after h n es)"
| "drained_after h n (ev # es) = drained_after h n es"

subsection \<open>Sample environments\<close>

text \<open>
  Concrete environments and a concrete state, for evaluating the model: a port that opens
  as handle 3 and works, one whose writes fail, one that does not open, one whose reads
  time out without storing anything, one whose reads deliver a zero byte and an empty
  line, one whose files have 32777 bytes. \<open>opened\<close> is the state after \<^verbatim>\<open>-p tty\<close> in
  \<open>env_ok\<close>.
\<close>

definition env_ok :: env where
  "env_ok = \<lparr>serialport_init = (\<lambda>tr port baud. 3),
     serialport_writebyte = (\<lambda>tr h x. 0),
     serialport_write = (\<lambda>tr h str. 0),
     serialport_read_byte = (\<lambda>tr h t. (1, Some 0x41)),
     serialport_read_until = (\<lambda>tr h eol m t. (0, ''ok'')),
     fopen = (\<lambda>tr name. Some [(0, Some 0x68), (0, Some 0x69)]),
     open_file = (\<lambda>tr name. 4),
     stdin_lines = []\<rparr>"

definition env_write_fails :: env where
  "env_write_fails = env_ok\<lparr>serialport_writebyte := (\<lambda>tr h x. - 1),
     serialport_write := (\<lambda>tr h str. - 1)\<rparr>"

definition env_no_port :: env where
  "env_no_port = env_ok\<lparr>serialport_init := (\<lambda>tr port baud. - 1)\<rparr>"

definition env_timeout :: env where
  "env_timeout = env_ok\<lparr>serialport_read_byte := (\<lambda>tr h t. (0, None)),
     serialport_read_until := (\<lambda>tr h eol m t. (- 2, []))\<rparr>"

definition env_zero :: env where
  "env_zero = env_ok\<lparr>serialport_read_byte := (\<lambda>tr h t. (1, Some 0)),
     serialport_read_until := (\<lambda>tr h eol m t. (0, []))\<rparr>"

definition long_file :: "(int \<times> u8) list" where
  \<comment> \<open>32777 data reads, each with return code 0 and the byte 0\<close>
  "long_file = replicate 32777 (0, 0)"

definition env_long :: env where
  "env_long = env_ok\<lparr>fopen := (\<lambda>tr name. Some (map data_outcome long_file))\<rparr>"

definition opened :: state where
  "opened = (init_state env_ok 0)\<lparr>fd := 3, serialport := ''tty'',
     trace := [Init ''tty'' 9600 3, Stdout (''opened port tty'' @ nl), Flush 3]\<rparr>"

subsection \<open>The invariant of the option loop\<close>

text \<open>
  \<open>plain\<close> events are those that neither open nor close a port nor report an error.
  \<open>extends s s'\<close>: \<open>s'\<close> has the handle of \<open>s\<close> and its trace is that of \<open>s\<close> followed by
  plain events. \<open>step_ok\<close> is what every case but \<open>p\<close> does; \<open>inv\<close> holds before every
  option and \<open>final\<close> at \<^verbatim>\<open>exit\<close>.
\<close>

fun plain :: "event \<Rightarrow> bool" where
  "plain (Init port baud r) = False"
| "plain (Close h) = False"
| "plain (Stderr m) = False"
| "plain ev = True"

definition extends :: "state \<Rightarrow> state \<Rightarrow> bool" where
  "extends s s' = (fd s' = fd s \<and> (\<exists>chunk. trace s' = trace s @ chunk \<and> list_all plain chunk))"

definition step_ok :: "state \<Rightarrow> result \<Rightarrow> bool" where
  "step_ok s res =
     (case res of
        Running s' \<Rightarrow> extends s s'
      | Exited k s' \<Rightarrow>
          (k = 0 \<and> extends s s') \<or> (k = 1 \<and> (\<exists>s1 m. extends s s1 \<and> s' = emit (Stderr m) s1))
      | _ \<Rightarrow> True)"

definition handle :: "int \<Rightarrow> int option" where
  "handle h = (if h = - 1 then None else Some h)"

definition inv :: "state \<Rightarrow> bool" where
  "inv s = (one_live None (trace s) \<and> live_after None (trace s) = handle (fd s)
     \<and> opens_flushed (trace s) \<and> \<not> error_reported (trace s))"

definition final :: "int \<Rightarrow> state \<Rightarrow> bool" where
  "final k s = (one_live None (trace s) \<and> opens_flushed (trace s)
     \<and> ((k = 0 \<and> \<not> error_reported (trace s)) \<or> (k = 1 \<and> error_reported (trace s))))"

section \<open>Lemmas\<close>

subsection \<open>Evaluating the model\<close>

text \<open>The loop of the file relay unfolds along the outcomes of the file; the collections
  below hold the equations that evaluate the model on concrete inputs.\<close>

lemma stream_loop_Nil:
  "stream_loop e [] s a = (case stream_body e (2, None) s a of (go, s', a') \<Rightarrow> (s', a'))"
proof -
  have "\<not> fst (stream_body e (2, None) s a)"
    by (simp add: stream_body_def Let_def emit_def)
  then show ?thesis
    by (subst stream_loop.simps)
      (auto simp: serialport_read_byte_file_def split: prod.splits)
qed

lemma stream_loop_Cons:
  "stream_loop e (r # ifile) s a =
     (case stream_body e r s a of (go, s', a') \<Rightarrow>
        if go then stream_loop e ifile s' a' else (s', a'))"
  by (subst stream_loop.simps) (simp add: serialport_read_byte_file_def)

lemmas c_defs = nl_def dq_def to_int_def to_short_def in_int_range_def c_rem_def isspace_def
  digit_val_def strtol_def digit_char_def show_int_def hex2_def byte_char_def optarg0_def
  buf_max_def store_def

lemmas shell_defs = emit_def say_def usage_def error_def stream_body_def stream_loop_Nil
  stream_loop_Cons case_e_def case_t_def case_d_def case_p_def case_n_def case_f_def case_v_def
  case_s_def case_i_def case_y_def case_r_def case_F_def init_state_def main_def Let_def

lemmas env_defs = env_ok_def env_write_fails_def env_no_port_def env_timeout_def env_zero_def
  env_long_def opened_def

lemmas obs_defs = observable_def console_def error_reported_def

subsection \<open>Every case but p extends the trace by plain events\<close>

text \<open>The loops and the cases of the switch leave the handle alone and add only plain events.\<close>

lemma extends_refl: "extends s s"
  by (simp add: extends_def)

lemma extends_trans: "extends s s1 \<Longrightarrow> extends s1 s2 \<Longrightarrow> extends s s2"
  by (auto simp: extends_def)

lemma extends_emit: "plain ev \<Longrightarrow> extends s s1 \<Longrightarrow> extends s (emit ev s1)"
  by (auto simp: extends_def emit_def)

lemma extends_say: "extends s s1 \<Longrightarrow> extends s (say msg s1)"
  by (simp add: say_def extends_emit)

lemma extends_upd:
  "extends s s1 \<Longrightarrow> extends s (s1\<lparr>rc := x\<rparr>)"
  "extends s s1 \<Longrightarrow> extends s (s1\<lparr>var_b := y\<rparr>)"
  "extends s s1 \<Longrightarrow> extends s (s1\<lparr>var_n := z\<rparr>)"
  "extends s s1 \<Longrightarrow> extends s (s1\<lparr>stdin := ls\<rparr>)"
  "extends s s1 \<Longrightarrow> extends s (s1\<lparr>quiet := q\<rparr>)"
  "extends s s1 \<Longrightarrow> extends s (s1\<lparr>eolchar := c\<rparr>)"
  "extends s s1 \<Longrightarrow> extends s (s1\<lparr>timeout := t\<rparr>)"
  "extends s s1 \<Longrightarrow> extends s (s1\<lparr>baudrate := bd\<rparr>)"
  by (simp_all add: extends_def)

lemmas extends_intros = extends_refl extends_emit extends_say extends_upd

lemma stream_body_extends: "extends s (fst (snd (stream_body e r s a)))"
  by (simp add: stream_body_def Let_def extends_intros)

lemma stream_loop_extends: "extends s (fst (stream_loop e ifile s a))"
proof (induction e ifile s a rule: stream_loop.induct)
  case (1 e ifile s a)
  obtain r rest where rd: "serialport_read_byte_file ifile = (r, rest)"
    by (cases "serialport_read_byte_file ifile")
  obtain go s' a' where bd: "stream_body e r s a = (go, s', a')"
    by (cases "stream_body e r s a")
  have ext: "extends s s'"
    using stream_body_extends [of s e r a] bd by simp
  show ?case
  proof (cases go)
    case True
    with 1 rd bd have "extends s' (fst (stream_loop e rest s' a'))"
      by simp
    with ext True rd bd show ?thesis
      by (subst stream_loop.simps) (simp add: extends_trans)
  next
    case False
    with ext rd bd show ?thesis
      by (subst stream_loop.simps) simp
  qed
qed

lemma send_lines_extends: "extends s s1 \<Longrightarrow> extends s (send_lines e ls s1)"
  by (induction ls arbitrary: s1) (simp_all add: Let_def extends_intros)

lemma relay_loop_extends:
  assumes "relay_loop e ofile s a = Some y"
  shows "extends s (fst y)"
proof (rule relay_loop.raw_induct [where P = "\<lambda>e ofile s a y. extends s (fst y)", OF _ assms],
    goal_cases)
  case (1 loop e ofile s a y)
  show ?case
  proof (cases "rc s \<le> 0")
    case False
    with 1(2) show ?thesis
      by (auto intro: extends_refl)
  next
    case True
    define r where "r = serialport_read_byte e (trace s) (fd s) 5000"
    define s1 where "s1 = (emit (ReadByte (fd s) 5000 (fst r) (snd r)) s)
                    \<lparr>rc := fst r, var_b := store (snd r) (var_b s)\<rparr>"
    define w where "w = serialport_writebyte e (trace s1) ofile (var_b s1)"
    define s2 where "s2 = (emit (WriteByte ofile (var_b s1) w) s1)\<lparr>rc := w\<rparr>"
    define s3 where "s3 = emit (Stdout [byte_char (var_b s2)]) s2"
    define s4 where "s4 = (if c_rem a 60 = 0 then emit (Tcdrain 1) (emit (Tcdrain ofile) s3) else s3)"
    have e1: "extends s s1"
      by (simp add: s1_def extends_intros)
    then have e4: "extends s s4"
      by (simp add: s4_def s3_def s2_def extends_intros)
    from 1(2) True
    have "(if rc s1 \<le> 0 then Some (emit (Tcdrain ofile) s1, a)
           else loop e ofile s4 (to_short (a + 1))) = Some y"
      unfolding Let_def r_def s1_def w_def s2_def s3_def s4_def
      by (simp only: if_True)
    then show ?thesis
    proof (cases "rc s1 \<le> 0")
      case stop: True
      assume "(if rc s1 \<le> 0 then Some (emit (Tcdrain ofile) s1, a)
           else loop e ofile s4 (to_short (a + 1))) = Some y"
      with stop have "y = (emit (Tcdrain ofile) s1, a)"
        by simp
      with e1 show ?thesis
        by (simp add: extends_intros)
    next
      case go: False
      assume "(if rc s1 \<le> 0 then Some (emit (Tcdrain ofile) s1, a)
           else loop e ofile s4 (to_short (a + 1))) = Some y"
      with go have "loop e ofile s4 (to_short (a + 1)) = Some y"
        by simp
      then have "extends s4 (fst y)"
        by (rule 1(1))
      with e4 show ?thesis
        by (rule extends_trans)
    qed
  qed
qed

lemma step_ok_Running: "extends s s1 \<Longrightarrow> step_ok s (Running s1)"
  by (simp add: step_ok_def)

lemma step_ok_error: "extends s s1 \<Longrightarrow> step_ok s (error m s1)"
  by (auto simp: step_ok_def error_def)

lemma step_ok_usage: "step_ok s (usage s)"
  by (simp add: step_ok_def usage_def extends_intros)

lemma step_ok_misc: "step_ok s Undefined" "step_ok s Hangs"
  by (simp_all add: step_ok_def)

lemmas step_ok_intros = step_ok_Running step_ok_error step_ok_usage step_ok_misc

lemma case_e_ok: "step_ok s (case_e optarg s)"
  by (simp add: case_e_def Let_def step_ok_intros extends_intros)

lemma case_t_ok: "step_ok s (case_t optarg s)"
  by (simp add: case_t_def Let_def step_ok_intros extends_intros)

lemma case_d_ok: "step_ok s (case_d optarg s)"
  by (simp add: case_d_def Let_def step_ok_intros extends_intros)

lemma case_n_ok: "step_ok s (case_n e optarg s)"
  by (simp add: case_n_def Let_def step_ok_intros extends_intros)

lemma case_f_ok: "step_ok s (case_f e optarg s)"
proof (cases "fd s = - 1")
  case True
  then show ?thesis
    by (simp add: case_f_def step_ok_intros extends_intros)
next
  case False
  show ?thesis
  proof (cases "fopen e (trace s) optarg")
    case None
    with False show ?thesis
      by (simp add: case_f_def step_ok_intros extends_intros)
  next
    case (Some ifile)
    define s2 where "s2 = emit (Flush (fd (say (''opened file '' @ dq @ optarg @ dq @ nl) (emit (Fopen optarg True) s))))
       (say (''opened file '' @ dq @ optarg @ dq @ nl) (emit (Fopen optarg True) s))"
    have e2: "extends s s2"
      by (simp add: s2_def extends_intros)
    obtain s3 a where sl: "stream_loop e ifile s2 0 = (s3, a)"
      by (cases "stream_loop e ifile s2 0")
    have "extends s2 s3"
      using stream_loop_extends [of s2 e ifile 0] sl by simp
    with e2 have "extends s s3"
      by (rule extends_trans)
    have "case_f e optarg s =
       (case stream_loop e ifile s2 0 of (s3, a) \<Rightarrow>
          Running (emit Fclose (if quiet (emit (Stdout nl) s3) then emit (Stdout nl) s3
             else emit (Stats a) (emit (Stdout nl) s3))))"
      using False Some unfolding case_f_def Let_def s2_def
      by (simp only: if_False option.case)
    with \<open>extends s s3\<close> sl show ?thesis
      by (simp add: step_ok_intros extends_intros)
  qed
qed

lemma case_v_ok: "step_ok s (case_v e optarg s)"
proof (cases "fd s = - 1")
  case True
  then show ?thesis
    by (simp add: case_v_def step_ok_intros extends_intros)
next
  case False
  define ofile where "ofile = open_file e (trace s) optarg"
  define s3 where "s3 = say (CHR 0x09 # ''warning: 5 seconds to send file!'' @ nl)
     (say (''opened file '' @ dq @ optarg @ dq @ nl) (emit (Open optarg ofile) s))"
  define r where "r = serialport_read_byte e (trace s3) (fd s3) 5000"
  define s4 where "s4 = (emit (ReadByte (fd s3) 5000 (fst r) (snd r)) s3)
                        \<lparr>rc := fst r, var_b := store (snd r) (var_b s3)\<rparr>"
  define s5 where "s5 = emit (Stdout (''found input.'' @ nl)) s4"
  define w where "w = serialport_writebyte e (trace s5) ofile (var_b s5)"
  define s6 where "s6 = emit (Tcdrain ofile) ((emit (WriteByte ofile (var_b s5) w) s5)\<lparr>rc := w\<rparr>)"
  have e4: "extends s s4"
    by (simp add: s4_def s3_def extends_intros)
  then have e6: "extends s s6"
    by (simp add: s6_def s5_def extends_intros)
  have unf: "case_v e optarg s =
     (if ofile < 0 then Running (emit (Perror ''error opening output file'') (emit (Open optarg ofile) s))
      else if rc s4 \<le> 0 then
                  Running (emit (CloseFd ofile) (emit (Stdout (''error: no input found.'' @ nl)) s4))
      else case relay_loop e ofile s6 1 of
                       None \<Rightarrow> Hangs
                     | Some (s7, a) \<Rightarrow>
                         Running (emit (CloseFd ofile) (say (''completed file save'' @ nl) s7)))"
    using False
    unfolding case_v_def Let_def ofile_def s3_def r_def s4_def s5_def w_def s6_def
    by (simp only: if_False)
  show ?thesis
  proof (cases "relay_loop e ofile s6 1")
    case None
    with e4 show ?thesis
      by (simp add: unf step_ok_intros extends_intros)
  next
    case (Some y)
    then have "extends s6 (fst y)"
      by (rule relay_loop_extends)
    with e6 have "extends s (fst y)"
      by (rule extends_trans)
    with Some e4 show ?thesis
      by (cases y) (simp add: unf step_ok_intros extends_intros)
  qed
qed

lemma case_s_ok: "step_ok s (case_s e line optarg s)"
  by (simp add: case_s_def Let_def step_ok_intros extends_intros)

lemma case_i_ok: "step_ok s (case_i e s)"
  by (simp add: case_i_def Let_def step_ok_intros extends_intros send_lines_extends)

lemma case_y_ok: "step_ok s (case_y e s)"
  by (simp add: case_y_def Let_def step_ok_intros extends_intros)

lemma case_r_ok: "step_ok s (case_r e s)"
  by (simp add: case_r_def Let_def step_ok_intros extends_intros)

lemma case_F_ok: "step_ok s (case_F s)"
  by (simp add: case_F_def Let_def step_ok_intros extends_intros)

lemma step_is_ok: "\<forall>port. opt \<noteq> Opt_p port \<Longrightarrow> step_ok s (step e s opt)"
  by (cases opt)
    (simp_all add: case_e_ok case_t_ok case_d_ok case_n_ok case_f_ok case_v_ok case_s_ok
       case_i_ok case_y_ok case_r_ok case_F_ok step_ok_intros extends_intros)

subsection \<open>The invariant holds along the option loop\<close>

text \<open>Plain events keep the invariant, case p re-establishes it, and so every run that exits
  ends in a final state.\<close>

lemma live_after_append: "live_after cur (t1 @ t2) = live_after (live_after cur t1) t2"
  by (induction cur t1 rule: live_after.induct) simp_all

lemma one_live_append:
  "one_live cur (t1 @ t2) = (one_live cur t1 \<and> one_live (live_after cur t1) t2)"
  by (induction cur t1 rule: one_live.induct) simp_all

lemma flush_next_append: "flush_next h t1 \<Longrightarrow> flush_next h (t1 @ t2)"
  by (induction h t1 rule: flush_next.induct) simp_all

lemma opens_flushed_append:
  "opens_flushed t1 \<Longrightarrow> opens_flushed t2 \<Longrightarrow> opens_flushed (t1 @ t2)"
  by (induction t1 rule: opens_flushed.induct) (auto simp: flush_next_append)

lemma error_reported_append:
  "error_reported (t1 @ t2) = (error_reported t1 \<or> error_reported t2)"
  by (simp add: error_reported_def)

lemma plain_chunk:
  "list_all plain c \<Longrightarrow>
     one_live cur c \<and> live_after cur c = cur \<and> opens_flushed c \<and> \<not> error_reported c"
proof (induction c)
  case Nil
  show ?case by (simp add: error_reported_def)
next
  case (Cons ev c)
  then show ?case
    by (cases ev) (simp_all add: error_reported_def)
qed

lemma inv_extends: "inv s \<Longrightarrow> extends s s' \<Longrightarrow> inv s'"
  using plain_chunk
  by (auto simp: inv_def extends_def one_live_append live_after_append
      error_reported_append opens_flushed_append)

lemma inv_final: "inv s \<Longrightarrow> final 0 s"
  by (simp add: inv_def final_def)

lemma inv_error: "inv s \<Longrightarrow> final 1 (emit (Stderr m) s)"
  by (simp add: inv_def final_def emit_def one_live_append error_reported_append
      opens_flushed_append error_reported_def)

lemma step_ok_inv:
  assumes "inv s" "step_ok s res"
  shows "(\<forall>s'. res = Running s' \<longrightarrow> inv s') \<and> (\<forall>k s'. res = Exited k s' \<longrightarrow> final k s')"
  using assms
  by (cases res) (auto simp: step_ok_def dest: inv_extends inv_final inv_error)

lemma case_p_inv:
  assumes "inv s"
  shows "(\<forall>s'. case_p e optarg s = Running s' \<longrightarrow> inv s')
     \<and> (\<forall>k s'. case_p e optarg s = Exited k s' \<longrightarrow> final k s')"
  using assms
  by (auto simp: case_p_def Let_def inv_def final_def handle_def error_def say_def emit_def
      one_live_append live_after_append error_reported_append error_reported_def
      opens_flushed_append split: if_splits)

lemma step_inv:
  assumes "inv s"
  shows "(\<forall>s'. step e s opt = Running s' \<longrightarrow> inv s')
     \<and> (\<forall>k s'. step e s opt = Exited k s' \<longrightarrow> final k s')"
proof (cases "\<exists>port. opt = Opt_p port")
  case True
  then show ?thesis
    using case_p_inv [OF assms] by auto
next
  case False
  then have "step_ok s (step e s opt)"
    by (simp add: step_is_ok)
  with assms show ?thesis
    by (rule step_ok_inv)
qed

lemma run_final: "inv s \<Longrightarrow> run e s opts = Exited k s' \<Longrightarrow> final k s'"
proof (induction opts arbitrary: s)
  case Nil
  then show ?case
    by (auto simp: inv_final)
next
  case (Cons opt opts)
  show ?case
  proof (cases "step e s opt")
    case (Running s1)
    with Cons.prems step_inv [of s e opt] have "inv s1" "run e s1 opts = Exited k s'"
      by auto
    then show ?thesis
      by (rule Cons.IH)
  next
    case (Exited k1 s1)
    with Cons.prems step_inv [of s e opt] show ?thesis
      by auto
  next
    case Hangs
    with Cons.prems show ?thesis by simp
  next
    case Undefined
    with Cons.prems show ?thesis by simp
  qed
qed

lemma inv_init: "inv (init_state e b_init)"
  by (simp add: inv_def init_state_def handle_def error_reported_def)

lemma main_final: "main e b_init argc opts = Exited k s' \<Longrightarrow> final k s'"
  using run_final [where s = "init_state e b_init" and e = e and opts = opts and k = k and s' = s',
      OF inv_init] inv_init [of e b_init]
  by (auto simp: main_def usage_def final_def inv_def emit_def one_live_append
      error_reported_append opens_flushed_append error_reported_def split: if_splits)

lemma run_not_Running: "run e s opts \<noteq> Running s'"
  by (induction opts arbitrary: s) (auto split: result.splits)

lemma main_not_Running: "main e b_init argc opts \<noteq> Running s'"
  by (simp add: main_def usage_def run_not_Running)







lemma read_timeouts_append: "read_timeouts (t1 @ t2) = read_timeouts t1 @ read_timeouts t2"
  by (induction t1 rule: read_timeouts.induct) simp_all

subsection \<open>The short counter\<close>

text \<open>Counting in a \<^verbatim>\<open>short\<close>: the counter after \<open>k\<close> increments, and where it is a multiple of 60.\<close>

lemma to_short_succ: "to_short (to_short x + 1) = to_short (x + 1)"
proof -
  have "((x + 32768) mod 65536 + 1) mod 65536 = (x + 32768 + 1) mod 65536"
    by (rule mod_add_left_eq)
  then show ?thesis
    by (simp add: to_short_def ac_simps)
qed

lemma to_short_Suc: "to_short (to_short (int k) + 1) = to_short (int (Suc k))"
  using to_short_succ [of "int k"] by (simp add: ac_simps)

lemma drain_due_small: "k < 32768 \<Longrightarrow> drain_due k = (k mod 60 = 0)"
proof -
  assume "k < 32768"
  then have "to_short (int k) = int k"
    by (simp add: to_short_def)
  moreover have "(int k mod 60 = 0) = (k mod 60 = 0)"
    by presburger
  ultimately show ?thesis
    by (auto simp: drain_due_def c_rem_def sgn_if)
qed

subsection \<open>The file relay on data reads\<close>

text \<open>With writes that succeed, the loop runs through all data reads and stops at end-of-file.\<close>

lemma wrote_append: "wrote h (t1 @ t2) = wrote h t1 @ wrote h t2"
  by (induction h t1 rule: wrote.induct) simp_all

lemma printed_append: "printed (t1 @ t2) = printed t1 @ printed t2"
  by (induction t1 rule: printed.induct) simp_all

lemma wrote_relay_trace: "wrote h (relay_trace h k rbs) = map snd rbs"
  by (induction rbs arbitrary: k) simp_all

lemma printed_relay_trace: "printed (relay_trace h k rbs) = map (byte_char \<circ> snd) rbs"
  by (induction rbs arbitrary: k) simp_all

lemma stream_body_data:
  assumes "\<forall>tr h x. serialport_writebyte e tr h x = 0" "0 \<le> fst rx" "fst rx \<noteq> 2"
  shows "stream_body e (data_outcome rx) s (to_short (int k)) =
     (True,
      s\<lparr>rc := 0, var_b := snd rx, trace := trace s @ relay_trace (fd s) k [rx]\<rparr>,
      to_short (int (Suc k)))"
  using assms
  by (simp add: stream_body_def data_outcome_def Let_def emit_def store_def drain_due_def
      to_short_Suc)

lemma stream_loop_data:
  assumes ok: "\<forall>tr h x. serialport_writebyte e tr h x = 0"
    and data: "\<forall>rx\<in>set rbs. 0 \<le> fst rx \<and> fst rx \<noteq> 2"
  shows "stream_loop e (map data_outcome rbs) s (to_short (int k)) =
     (s\<lparr>rc := 2, var_b := last (var_b s # map snd rbs),
        trace := trace s @ relay_trace (fd s) k rbs
                   @ eof_trace (fd s) None (last (var_b s # map snd rbs))\<rparr>,
      to_short (int (k + length rbs)))"
  using data
proof (induction rbs arbitrary: s k)
  case Nil
  show ?case
    by (simp add: stream_loop_Nil stream_body_def Let_def emit_def store_def eof_trace_def)
next
  case (Cons rx rbs)
  from Cons.prems have rx: "0 \<le> fst rx" "fst rx \<noteq> 2"
    and rest: "\<forall>rx\<in>set rbs. 0 \<le> fst rx \<and> fst rx \<noteq> 2"
    by simp_all
  define s1 where "s1 = s\<lparr>rc := 0, var_b := snd rx, trace := trace s @ relay_trace (fd s) k [rx]\<rparr>"
  have body: "stream_body e (data_outcome rx) s (to_short (int k)) = (True, s1, to_short (int (Suc k)))"
    unfolding s1_def using ok rx by (rule stream_body_data)
  have "stream_loop e (map data_outcome (rx # rbs)) s (to_short (int k)) =
      stream_loop e (map data_outcome rbs) s1 (to_short (int (Suc k)))"
    by (simp add: stream_loop_Cons body)
  also have "\<dots> = (s1\<lparr>rc := 2, var_b := last (var_b s1 # map snd rbs),
        trace := trace s1 @ relay_trace (fd s1) (Suc k) rbs
                   @ eof_trace (fd s1) None (last (var_b s1 # map snd rbs))\<rparr>,
      to_short (int (Suc k + length rbs)))"
    using rest by (rule Cons.IH)
  finally show ?case
    by (simp add: s1_def)
qed

lemma case_f_data:
  assumes "fd s \<noteq> - 1" and "fopen e (trace s) name = Some (map data_outcome rbs)"
    and "\<forall>rx\<in>set rbs. 0 \<le> fst rx \<and> fst rx \<noteq> 2"
    and "\<forall>tr h x. serialport_writebyte e tr h x = 0"
  shows "trace_of (step e s (Opt_f name)) =
     trace s
     @ Fopen name True
       # (if quiet s then [] else [Stdout (''opened file '' @ dq @ name @ dq @ nl)])
     @ Flush (fd s)
       # relay_trace (fd s) 0 rbs
     @ eof_trace (fd s) None (last (var_b s # map snd rbs))
     @ Stdout nl
       # (if quiet s then [] else [Stats (to_short (int (length rbs)))])
     @ [Fclose]"
proof -
  define s2 where "s2 = emit (Flush (fd s))
    (say (''opened file '' @ dq @ name @ dq @ nl) (emit (Fopen name True) s))"
  have loop: "stream_loop e (map data_outcome rbs) s2 0 =
     (s2\<lparr>rc := 2, var_b := last (var_b s2 # map snd rbs),
        trace := trace s2 @ relay_trace (fd s2) 0 rbs
                   @ eof_trace (fd s2) None (last (var_b s2 # map snd rbs))\<rparr>,
      to_short (int (0 + length rbs)))"
    using stream_loop_data [where k = 0 and s = s2 and e = e and rbs = rbs] assms(3,4)
    by (simp add: to_short_def)
  have s2: "fd s2 = fd s" "var_b s2 = var_b s" "quiet s2 = quiet s"
    "trace s2 = trace s @ Fopen name True
       # (if quiet s then [] else [Stdout (''opened file '' @ dq @ name @ dq @ nl)])
       @ [Flush (fd s)]"
    by (simp_all add: s2_def emit_def say_def)
  have "fd (say (''opened file '' @ dq @ name @ dq @ nl) (emit (Fopen name True) s)) = fd s"
    by (simp add: say_def emit_def)
  then have unf: "case_f e name s =
     (case stream_loop e (map data_outcome rbs) s2 0 of (s3, a) \<Rightarrow>
        Running (emit Fclose (if quiet (emit (Stdout nl) s3) then emit (Stdout nl) s3
              else emit (Stats a) (emit (Stdout nl) s3))))"
    using assms(1,2) by (simp add: case_f_def Let_def s2_def)
  show ?thesis
    by (simp add: unf loop s2 emit_def)
qed

lemma relay_trace_by_60: "k + length rbs \<le> 32768 \<Longrightarrow> relay_trace h k rbs = relay_by_60 h k rbs"
  by (induction rbs arbitrary: k) (simp_all add: drain_due_small)

lemma drained_after_append:
  "drained_after h n (t1 @ t2) =
     drained_after h n t1 @ drained_after h (n + length (wrote h t1)) t2"
  by (induction h n t1 rule: drained_after.induct) simp_all

lemma drained_after_relay_trace:
  "h \<noteq> 1 \<Longrightarrow>
   drained_after h k (relay_trace h k rbs) = map Suc (filter drain_due [k..<k + length rbs])"
proof (induction rbs arbitrary: k)
  case Nil
  show ?case by simp
next
  case (Cons rx rbs)
  from Cons.prems
  have "drained_after h k (relay_trace h k (rx # rbs)) =
      (if drain_due k then [Suc k] else [])
      @ drained_after h (Suc k) (relay_trace h (Suc k) rbs)"
    by simp
  also have "\<dots> = (if drain_due k then [Suc k] else [])
      @ map Suc (filter drain_due [Suc k..<Suc k + length rbs])"
    by (simp only: Cons.IH [OF Cons.prems])
  also have "\<dots> = map Suc (filter drain_due (k # [Suc k..<Suc k + length rbs]))"
    by simp
  also have "k # [Suc k..<Suc k + length rbs] = [k..<k + length (rx # rbs)]"
  proof -
    have "Suc k + length rbs = k + length (rx # rbs)"
      by simp
    moreover have "[k..<k + length (rx # rbs)] = k # [Suc k..<k + length (rx # rbs)]"
      by (rule upt_conv_Cons) simp
    ultimately show ?thesis
      by (simp only:)
  qed
  finally show ?case .
qed

lemma long_file_facts:
  "length long_file = 32777" "\<forall>rx\<in>set long_file. 0 \<le> fst rx \<and> fst rx \<noteq> 2"
  unfolding long_file_def by simp_all

lemma empty_file_echo:
  "length port < buf_max \<and> h \<noteq> - 1 \<and> (\<forall>tr. serialport_init e tr port 9600 = h)
     \<and> (\<forall>tr. fopen e tr name = Some []) \<longrightarrow>
   printed (trace_of (main e b_init 5 [Opt_q, Opt_p port, Opt_f name])) =
     byte_char b_init # ''end of file reached'' @ nl @ nl"
  by (simp add: shell_defs store_def)

section \<open>The claims\<close>

text \<open>
  The theorems below are about every environment \<open>e\<close>, every state \<open>s\<close> and every list
  of options, unless a sample environment is named. A run that hangs in the loop of case v
  or is undefined has no trace in the model, and the theorems about whole runs say nothing
  on it.
\<close>

subsection \<open>C1: exit status\<close>




subsection \<open>C2: a timed-out read and a zero byte\<close>

text \<open>
  C2, as stated, fails. The claim: a timed-out read is always distinguishable from a
  genuine zero-length or zero-byte success. In \<open>env_timeout\<close> the reads store nothing and
  return 0 and -2; in \<open>env_zero\<close> they return success with a zero byte and an empty line.
  The run \<^verbatim>\<open>-p tty -y -r\<close> has the same exit status and the same console output in both.
\<close>

theorem timeout_prints_like_zero_byte:
  "ReadByte 3 5000 0 None \<in> set (trace_of (main env_timeout 0 4 [Opt_p ''tty'', Opt_y, Opt_r]))
   \<and> ReadByte 3 5000 1 (Some 0) \<in> set (trace_of (main env_zero 0 4 [Opt_p ''tty'', Opt_y, Opt_r]))
   \<and> observable (main env_timeout 0 4 [Opt_p ''tty'', Opt_y, Opt_r])
     = observable (main env_zero 0 4 [Opt_p ''tty'', Opt_y, Opt_r])"
  by (simp add: shell_defs c_defs env_defs obs_defs)

text \<open>
  C2, amended. Options y and r do not look at the return code of their read: the exit
  status and the console output depend only on what the read left in the buffer, which was
  zeroed before. So a read that timed out without data prints what a received zero byte or
  an empty line prints. Only option v looks at the code of its first read, and it reports
  every code that is not positive as "error: no input found.".
\<close>

theorem read_output_ignores_code:
  "(fd s \<noteq> - 1 \<longrightarrow>
      observable (step e s Opt_y) =
        (None, console (trace s) @ (if quiet s then [] else [Stdout ''read byte:''])
           @ [Stdout (''0x''
                @ hex2 (store (snd (serialport_read_byte e (trace s) (fd s) (timeout s))) 0)
                @ nl)]))
   \<and> (fd s \<noteq> - 1 \<longrightarrow>
      observable (step e s Opt_r) =
        (None, console (trace s) @ (if quiet s then [] else [Stdout ''read string:''])
           @ [Stdout (snd (serialport_read_until e (trace s) (fd s) (eolchar s) 256 (timeout s))
                @ nl)]))
   \<and> (fd s \<noteq> - 1 \<and> 0 \<le> open_file e (trace s) name
        \<and> (\<forall>tr. fst (serialport_read_byte e tr (fd s) 5000) \<le> 0) \<longrightarrow>
      observable (step e s (Opt_v name)) =
        (None, console (trace s)
           @ (if quiet s then []
              else [Stdout (''opened file '' @ dq @ name @ dq @ nl),
                    Stdout (CHR 0x09 # ''warning: 5 seconds to send file!'' @ nl)])
           @ [Stdout (''error: no input found.'' @ nl)]))"
  by (auto simp: case_y_def case_r_def case_v_def Let_def observable_def console_def emit_def
      say_def buf_max_def)

text \<open>C2, an instance: the three options in \<open>env_timeout\<close>.\<close>

theorem read_output_ignores_code_witness:
  "fd opened \<noteq> - 1
   \<and> observable (step env_timeout opened Opt_y) =
       (None, [Stdout (''opened port tty'' @ nl), Stdout ''read byte:'', Stdout (''0x00'' @ nl)])
   \<and> observable (step env_timeout opened Opt_r) =
       (None, [Stdout (''opened port tty'' @ nl), Stdout ''read string:'', Stdout nl])
   \<and> 0 \<le> open_file env_timeout (trace opened) ''out''
   \<and> observable (step env_timeout opened (Opt_v ''out'')) =
       (None, [Stdout (''opened port tty'' @ nl), Stdout (''opened file '' @ dq @ ''out'' @ dq @ nl),
               Stdout (CHR 0x09 # ''warning: 5 seconds to send file!'' @ nl),
               Stdout (''error: no input found.'' @ nl)])"
  using read_output_ignores_code [where e = env_timeout and s = opened and name = "''out''"]
  by (simp add: env_defs c_defs init_state_def obs_defs)

subsection \<open>C3: one live handle\<close>

text \<open>
  C3, as stated, fails. The claim: when a port is opened while a handle is live, the prior
  handle is closed and flushed before the new one is created. In the run
  \<^verbatim>\<open>-p ttyA -s x -p ttyB\<close> the last call on the first handle before its
  \<^verbatim>\<open>serialport_close\<close> is the write of "x": \<^verbatim>\<open>main\<close> does not flush a handle it is
  about to close.
\<close>

theorem reopen_not_flushed:
  "\<not> closes_flushed [] (trace_of (main env_ok 0 6 [Opt_p ''ttyA'', Opt_s ''x'', Opt_p ''ttyB'']))"
  by (simp add: shell_defs c_defs env_defs last_use_def)

text \<open>
  C3, amended. At most one handle is live at any time of a run: every
  \<^verbatim>\<open>serialport_init\<close> finds no handle live, because a live one was closed by
  \<^verbatim>\<open>serialport_close\<close> first, and every close is of the live handle. The step of
  option p with a live handle starts with that close, prints, and calls
  \<^verbatim>\<open>serialport_init\<close>: it has no flush of the handle it closes. (The flush that
  \<^verbatim>\<open>main\<close> issues on reopening is on the new handle, see C10.)
\<close>

theorem one_live_handle:
  "one_live None (trace_of (main e b_init argc opts))
   \<and> (fd s \<noteq> - 1 \<and> length port < buf_max \<longrightarrow>
        (\<exists>r rest. trace_of (step e s (Opt_p port)) =
           trace s
           @ Close (fd s)
             # (if quiet s then [] else [Stdout (''closed port '' @ serialport s @ nl)])
           @ Init port (baudrate s) r # rest))"
proof (intro conjI impI)
  show "one_live None (trace_of (main e b_init argc opts))"
  proof (cases "main e b_init argc opts")
    case (Exited k s')
    then have "final k s'"
      by (rule main_final)
    with Exited show ?thesis
      by (simp add: final_def)
  next
    case (Running s')
    then show ?thesis
      by (simp add: main_not_Running)
  qed simp_all
next
  assume "fd s \<noteq> - 1 \<and> length port < buf_max"
  then show "\<exists>r rest. trace_of (step e s (Opt_p port)) =
           trace s
           @ Close (fd s)
             # (if quiet s then [] else [Stdout (''closed port '' @ serialport s @ nl)])
           @ Init port (baudrate s) r # rest"
    by (simp add: case_p_def Let_def say_def emit_def error_def)
qed

text \<open>C3, an instance: the run of the counterexample, with its trace.\<close>

theorem one_live_handle_witness:
  "one_live None (trace_of (main env_ok 0 6 [Opt_p ''ttyA'', Opt_s ''x'', Opt_p ''ttyB'']))
   \<and> fd opened \<noteq> - 1 \<and> length ''ttyB'' < buf_max
   \<and> trace_of (step env_ok opened (Opt_p ''ttyB'')) =
       trace opened @
       [Close 3, Stdout (''closed port tty'' @ nl), Init ''ttyB'' 9600 3,
        Stdout (''opened port ttyB'' @ nl), Flush 3]
   \<and> trace_of (main env_ok 0 6 [Opt_p ''ttyA'', Opt_s ''x'', Opt_p ''ttyB'']) =
     [Init ''ttyA'' 9600 3, Stdout (''opened port ttyA'' @ nl), Flush 3,
      Stdout (''send string:x'' @ nl), Write 3 ''x'' 0,
      Close 3, Stdout (''closed port ttyA'' @ nl),
      Init ''ttyB'' 9600 3, Stdout (''opened port ttyB'' @ nl), Flush 3]"
  using one_live_handle [where e = env_ok and b_init = 0 and argc = 6
      and opts = "[Opt_p ''ttyA'', Opt_s ''x'', Opt_p ''ttyB'']" and s = opened
      and port = "''ttyB''"]
  by (simp add: shell_defs c_defs env_defs)

subsection \<open>C4: the read time-out\<close>

text \<open>
  C4, as stated, fails. The claim: a time-out supplied by the user is clamped to
  non-negative before the read operations use it. The run \<^verbatim>\<open>-p tty -t -5 -y\<close> hands -5
  to \<^verbatim>\<open>serialport_read_byte\<close>.
\<close>

theorem negative_timeout_passed:
  "\<not> timeouts_nonneg (trace_of (main env_ok 0 5 [Opt_p ''tty'', Opt_t ''-5'', Opt_y]))
   \<and> read_timeouts (trace_of (main env_ok 0 5 [Opt_p ''tty'', Opt_t ''-5'', Opt_y])) = [- 5]"
  by (simp add: shell_defs c_defs env_defs timeouts_nonneg_def)

text \<open>
  C4, amended. The read time-out is 5000 at the start; option t sets it to the value
  \<^verbatim>\<open>strtol\<close> reads from its argument, converted to \<^verbatim>\<open>int\<close> and not clamped; options y
  and r hand the current value to their read unchanged.
\<close>

theorem timeout_passed_unchanged:
  "timeout (init_state e b_init) = 5000
   \<and> step e s (Opt_t optarg) =
       Running (say (''timeout set to '' @ show_int (to_int (strtol optarg)) @ '' millisecs'' @ nl)
                  (s\<lparr>timeout := to_int (strtol optarg)\<rparr>))
   \<and> (fd s \<noteq> - 1 \<longrightarrow>
        read_timeouts (trace_of (step e s Opt_y)) = read_timeouts (trace s) @ [timeout s])
   \<and> (fd s \<noteq> - 1 \<longrightarrow>
        read_timeouts (trace_of (step e s Opt_r)) = read_timeouts (trace s) @ [timeout s])"
  by (simp add: init_state_def case_t_def case_y_def case_r_def Let_def emit_def say_def
      read_timeouts_append)

text \<open>C4, an instance: \<^verbatim>\<open>-t -5\<close> and the reads after it.\<close>

theorem timeout_passed_unchanged_witness:
  "fd opened \<noteq> - 1
   \<and> step env_ok opened (Opt_t ''-5'') =
       Running (opened\<lparr>timeout := - 5,
         trace := trace opened @ [Stdout (''timeout set to -5 millisecs'' @ nl)]\<rparr>)
   \<and> read_timeouts (trace_of (step env_ok (opened\<lparr>timeout := - 5\<rparr>) Opt_y)) = [- 5]
   \<and> read_timeouts (trace_of (step env_ok opened Opt_r)) = [5000]"
  using timeout_passed_unchanged [where e = env_ok and s = opened and optarg = "''-5''"]
    timeout_passed_unchanged [where e = env_ok and s = "opened\<lparr>timeout := - 5\<rparr>"]
  by (simp add: env_defs c_defs init_state_def say_def emit_def)

subsection \<open>C5: the file relay\<close>

text \<open>
  C5, as stated, fails, in two ways. The claim: the file relay writes every data byte of
  the file to the port with no loss, and forces a drain every 60 bytes.
  \<^item> In \<open>env_write_fails\<close> the file has the bytes 0x68 and 0x69 and
    \<^verbatim>\<open>serialport_writebyte\<close> returns -1. The loop hands 0x68 to the port and ends, since
    its condition is \<^verbatim>\<open>rc == 0\<close> for the code of the write: 0x69 never reaches the port,
    and the run goes on to exit with status 0.
  \<^item> In \<open>env_long\<close> the file has 32777 bytes and every write succeeds. The counter
    \<^verbatim>\<open>a\<close> is a \<^verbatim>\<open>short\<close> and wraps after 32767: the port is drained after byte 32761 and
    again after byte 32777, 16 bytes later.
\<close>

theorem relay_loses_bytes_and_drain_drifts:
  "fopen env_write_fails (trace opened) ''data'' = Some (map data_outcome [(0, 0x68), (0, 0x69)])
   \<and> wrote 3 (trace_of (main env_write_fails 0 5 [Opt_p ''tty'', Opt_f ''data''])) = [0x68]
   \<and> status_of (main env_write_fails 0 5 [Opt_p ''tty'', Opt_f ''data'']) = Some 0
   \<and> fopen env_long (trace opened) ''data'' = Some (map data_outcome long_file)
   \<and> length long_file = 32777
   \<and> 32761 \<in> set (drained_after 3 0 (trace_of (step env_long opened (Opt_f ''data''))))
   \<and> 32777 \<in> set (drained_after 3 0 (trace_of (step env_long opened (Opt_f ''data''))))"
proof -
  have lost: "fopen env_write_fails (trace opened) ''data'' =
      Some (map data_outcome [(0, 0x68), (0, 0x69)])"
    "wrote 3 (trace_of (main env_write_fails 0 5 [Opt_p ''tty'', Opt_f ''data''])) = [0x68]"
    "status_of (main env_write_fails 0 5 [Opt_p ''tty'', Opt_f ''data'']) = Some 0"
    by (simp_all add: shell_defs c_defs env_defs data_outcome_def)
  have long: "fopen env_long (trace opened) ''data'' = Some (map data_outcome long_file)"
    by (simp add: env_defs)
  have writes: "\<forall>tr h x. serialport_writebyte env_long tr h x = 0"
    by (simp add: env_defs)
  have port: "fd opened = 3" "quiet opened = False"
    "trace opened = [Init ''tty'' 9600 3, Stdout (''opened port tty'' @ nl), Flush 3]"
    by (simp_all add: env_defs init_state_def)
  then have "fd opened \<noteq> - 1"
    by simp
  from case_f_data [OF this long long_file_facts(2) writes]
  have "drained_after 3 0 (trace_of (step env_long opened (Opt_f ''data''))) =
      map Suc (filter drain_due [0..<32777])"
    by (simp add: port drained_after_append drained_after_relay_trace long_file_facts(1)
        eof_trace_def)
  moreover have "drain_due 32760" "drain_due 32776"
    by (simp_all add: drain_due_def to_short_def c_rem_def)
  ultimately have
    "32761 \<in> set (drained_after 3 0 (trace_of (step env_long opened (Opt_f ''data''))))"
    "32777 \<in> set (drained_after 3 0 (trace_of (step env_long opened (Opt_f ''data''))))"
    by (simp_all add: image_iff)
  with lost long long_file_facts(1) show ?thesis
    by simp
qed

text \<open>
  C5, amended. As long as every write to the port returns 0, option f hands every data
  byte of the file to the port, in order, each once. When moreover the file has fewer than
  32768 bytes, option f does exactly this: it opens the file, flushes the port, and for
  each byte in turn reads it, echoes it and writes it to the port, with a drain of the port
  and of standard output (\<^verbatim>\<open>tcdrain(fd); tcdrain(1)\<close>) after the write whenever the
  number of bytes written before is a multiple of 60; then the end-of-file pass.
\<close>

theorem streamer_relays_file:
  "(fd s \<noteq> - 1 \<and> fopen e (trace s) name = Some (map data_outcome rbs)
     \<and> (\<forall>rx\<in>set rbs. 0 \<le> fst rx \<and> fst rx \<noteq> 2)
     \<and> (\<forall>tr h x. serialport_writebyte e tr h x = 0) \<longrightarrow>
   wrote (fd s) (trace_of (step e s (Opt_f name))) = wrote (fd s) (trace s) @ map snd rbs)
   \<and> (fd s \<noteq> - 1 \<and> fopen e (trace s) name = Some (map data_outcome rbs)
     \<and> (\<forall>rx\<in>set rbs. 0 \<le> fst rx \<and> fst rx \<noteq> 2)
     \<and> (\<forall>tr h x. serialport_writebyte e tr h x = 0)
     \<and> length rbs < 32768 \<longrightarrow>
   trace_of (step e s (Opt_f name)) =
     trace s
     @ Fopen name True
       # (if quiet s then [] else [Stdout (''opened file '' @ dq @ name @ dq @ nl)])
     @ Flush (fd s)
       # relay_by_60 (fd s) 0 rbs
     @ eof_trace (fd s) None (last (var_b s # map snd rbs))
     @ Stdout nl
       # (if quiet s then [] else [Stats (int (length rbs))])
     @ [Fclose])"
proof (intro impI conjI)
  assume "fd s \<noteq> - 1 \<and> fopen e (trace s) name = Some (map data_outcome rbs)
     \<and> (\<forall>rx\<in>set rbs. 0 \<le> fst rx \<and> fst rx \<noteq> 2)
     \<and> (\<forall>tr h x. serialport_writebyte e tr h x = 0)"
  then have "fd s \<noteq> - 1" "fopen e (trace s) name = Some (map data_outcome rbs)"
    "\<forall>rx\<in>set rbs. 0 \<le> fst rx \<and> fst rx \<noteq> 2" "\<forall>tr h x. serialport_writebyte e tr h x = 0"
    by simp_all
  from case_f_data [OF this]
  show "wrote (fd s) (trace_of (step e s (Opt_f name))) = wrote (fd s) (trace s) @ map snd rbs"
    by (simp add: wrote_append wrote_relay_trace eof_trace_def)
next
  assume "fd s \<noteq> - 1 \<and> fopen e (trace s) name = Some (map data_outcome rbs)
     \<and> (\<forall>rx\<in>set rbs. 0 \<le> fst rx \<and> fst rx \<noteq> 2)
     \<and> (\<forall>tr h x. serialport_writebyte e tr h x = 0)
     \<and> length rbs < 32768"
  then have hyp: "fd s \<noteq> - 1" "fopen e (trace s) name = Some (map data_outcome rbs)"
    "\<forall>rx\<in>set rbs. 0 \<le> fst rx \<and> fst rx \<noteq> 2" "\<forall>tr h x. serialport_writebyte e tr h x = 0"
    and short: "length rbs < 32768"
    by simp_all
  from short have "relay_trace (fd s) 0 rbs = relay_by_60 (fd s) 0 rbs"
    by (intro relay_trace_by_60) simp
  moreover from short have "to_short (int (length rbs)) = int (length rbs)"
    by (simp add: to_short_def)
  ultimately show "trace_of (step e s (Opt_f name)) =
     trace s
     @ Fopen name True
       # (if quiet s then [] else [Stdout (''opened file '' @ dq @ name @ dq @ nl)])
     @ Flush (fd s)
       # relay_by_60 (fd s) 0 rbs
     @ eof_trace (fd s) None (last (var_b s # map snd rbs))
     @ Stdout nl
       # (if quiet s then [] else [Stats (int (length rbs))])
     @ [Fclose]"
    using case_f_data [OF hyp] by simp
qed

text \<open>C5, an instance: the two byte file of \<open>env_ok\<close>.\<close>

theorem streamer_relays_file_witness:
  "fd opened \<noteq> - 1
   \<and> fopen env_ok (trace opened) ''data'' = Some (map data_outcome [(0, 0x68), (0, 0x69)])
   \<and> (\<forall>tr h x. serialport_writebyte env_ok tr h x = 0)
   \<and> length [(0 :: int, 0x68 :: u8), (0, 0x69)] < 32768
   \<and> trace_of (step env_ok opened (Opt_f ''data'')) =
       trace opened @
       [Fopen ''data'' True, Stdout (''opened file '' @ dq @ ''data'' @ dq @ nl), Flush 3,
        ReadByteFile 10000 0 (Some 0x68), Stdout [byte_char 0x68], WriteByte 3 0x68 0,
        Tcdrain 3, Tcdrain 1,
        ReadByteFile 10000 0 (Some 0x69), Stdout [byte_char 0x69], WriteByte 3 0x69 0,
        ReadByteFile 10000 2 None, Stdout [byte_char 0x69], Stdout (''end of file reached'' @ nl),
        Flush 3, Stdout nl, Stats 2, Fclose]
   \<and> wrote 3 (trace_of (step env_ok opened (Opt_f ''data''))) = [0x68, 0x69]"
  using streamer_relays_file [where e = env_ok and s = opened and name = "''data''"
      and rbs = "[(0, 0x68), (0, 0x69)]"]
  by (simp add: env_defs init_state_def data_outcome_def eof_trace_def)

subsection \<open>C6: end-of-file\<close>

text \<open>
  C6. When the read of the file relay returns 2 (end-of-file), whatever it stored and
  whatever the file would deliver after it, the loop prints "end of file reached" once,
  calls \<^verbatim>\<open>serialport_flush\<close> on the port once, and ends: no write to the port and no
  further read. The same holds for the read after the last outcome of the file.
\<close>

theorem streamer_eof_stops:
  "stream_loop e ((2, st) # rest) s a =
     (s\<lparr>rc := 2, var_b := store st (var_b s),
        trace := trace s @
          [ReadByteFile 10000 2 st, Stdout [byte_char (store st (var_b s))],
           Stdout (''end of file reached'' @ nl), Flush (fd s)]\<rparr>, a)
   \<and> stream_loop e [] s a =
     (s\<lparr>rc := 2,
        trace := trace s @
          [ReadByteFile 10000 2 None, Stdout [byte_char (var_b s)],
           Stdout (''end of file reached'' @ nl), Flush (fd s)]\<rparr>, a)"
  by (simp add: stream_loop_Cons stream_loop_Nil stream_body_def Let_def emit_def store_def)

text \<open>C6, an instance: end-of-file before a byte that is never read.\<close>

theorem streamer_eof_stops_witness:
  "stream_loop env_ok [(2, None), (0, Some 0x68)] opened 0 =
     (opened\<lparr>rc := 2,
        trace := trace opened @
          [ReadByteFile 10000 2 None, Stdout [byte_char 0],
           Stdout (''end of file reached'' @ nl), Flush 3]\<rparr>, 0)"
  using streamer_eof_stops [where e = env_ok and st = None and rest = "[(0, Some 0x68)]"
      and s = opened and a = 0]
  by (simp add: env_defs init_state_def c_defs)

subsection \<open>C7: a failed read\<close>

text \<open>
  C7. When the read of the file relay returns a negative code \<open>c\<close>, the loop prints
  "input loop broke unexpectedly c" and ends at once: the failed read is not repeated,
  nothing is written to the port, and what the file would deliver next is not read.
\<close>

theorem streamer_failure_stops:
  "c < 0 \<Longrightarrow>
   stream_loop e ((c, st) # rest) s a =
     (s\<lparr>rc := c, var_b := store st (var_b s),
        trace := trace s @
          [ReadByteFile 10000 c st, Stdout [byte_char (store st (var_b s))],
           Stdout (''input loop broke unexpectedly '' @ show_int c @ nl)]\<rparr>, a)"
  by (simp add: stream_loop_Cons stream_body_def Let_def emit_def)

text \<open>C7, an instance: a read that returns -1 before a byte that is never read.\<close>

theorem streamer_failure_stops_witness:
  "(- 1 :: int) < 0
   \<and> stream_loop env_ok [(- 1, None), (0, Some 0x68)] opened 0 =
     (opened\<lparr>rc := - 1,
        trace := trace opened @
          [ReadByteFile 10000 (- 1) None, Stdout [byte_char 0],
           Stdout (''input loop broke unexpectedly -1'' @ nl)]\<rparr>, 0)"
  using streamer_failure_stops [where c = "- 1" and e = env_ok and st = None
      and rest = "[(0, Some 0x68)]" and s = opened and a = 0]
  by (simp add: env_defs init_state_def c_defs)

subsection \<open>C8: the end-of-line character\<close>

text \<open>
  C8. For an argument \<open>c # cs\<close> of option e, the end-of-line character becomes \<open>c\<close>; the
  step, and with it the whole run that follows, is the one of the argument \<open>[c]\<close>, so the
  characters \<open>cs\<close> have no effect at all; and a line read that follows hands \<open>c\<close> to
  \<^verbatim>\<open>serialport_read_until\<close>. (For the empty argument \<^verbatim>\<open>optarg[0]\<close> is the terminating
  NUL, which becomes the end-of-line character.)
\<close>

theorem eolchar_first_byte:
  "step e s (Opt_e (c # cs)) =
     Running (say (''eolchar set to '' @ [CHR 0x27, c, CHR 0x27] @ nl) (s\<lparr>eolchar := c\<rparr>))
   \<and> step e s (Opt_e []) =
     Running (say (''eolchar set to '' @ [CHR 0x27, CHR 0x00, CHR 0x27] @ nl)
                (s\<lparr>eolchar := CHR 0x00\<rparr>))
   \<and> step e s (Opt_e (c # cs)) = step e s (Opt_e [c])
   \<and> run e s (Opt_e (c # cs) # opts) = run e s (Opt_e [c] # opts)
   \<and> (fd s \<noteq> - 1 \<longrightarrow>
        (\<exists>r buf. ReadUntil (fd s) c 256 (timeout s) r buf
           \<in> set (trace_of (run e s [Opt_e (c # cs), Opt_r]))))"
  by (auto simp: case_e_def case_r_def optarg0_def Let_def say_def emit_def buf_max_def)

text \<open>C8, an instance: \<^verbatim>\<open>-e xyz -r\<close>.\<close>

theorem eolchar_first_byte_witness:
  "fd opened \<noteq> - 1
   \<and> step env_ok opened (Opt_e ''xyz'') = step env_ok opened (Opt_e ''x'')
   \<and> ReadUntil 3 CHR ''x'' 256 5000 0 ''ok'' \<in> set (trace_of (run env_ok opened [Opt_e ''xyz'', Opt_r]))"
  using eolchar_first_byte [where e = env_ok and s = opened and c = "CHR ''x''" and cs = "''yz''"]
  by (simp add: shell_defs c_defs env_defs)

subsection \<open>C9: the echo comes before the check\<close>

text \<open>
  C9. In every pass of the loop of the file relay the byte variable is printed right after
  the read, whatever the read returned. So when the file delivers the data reads \<open>rbs\<close>
  and then end-of-file (which stores nothing) and the writes succeed, the console shows the
  bytes of the file and then the last of them once more (for an empty file: the byte the
  variable held before, which at the start of \<^verbatim>\<open>main\<close> is uninitialised), while the port
  receives the bytes of the file only.
\<close>

theorem streamer_echo_before_check:
  "(\<exists>rest. trace (fst (snd (stream_body e r s a))) =
        trace s @ ReadByteFile 10000 (fst r) (snd r)
          # Stdout [byte_char (store (snd r) (var_b s))] # rest)
   \<and> ((\<forall>rx\<in>set rbs. 0 \<le> fst rx \<and> fst rx \<noteq> 2)
        \<and> (\<forall>tr h x. serialport_writebyte e tr h x = 0) \<longrightarrow>
      printed (trace (fst (stream_loop e (map data_outcome rbs) s 0))) =
        printed (trace s) @ map (byte_char \<circ> snd) rbs
          @ byte_char (last (var_b s # map snd rbs)) # ''end of file reached'' @ nl
      \<and> wrote (fd s) (trace (fst (stream_loop e (map data_outcome rbs) s 0))) =
        wrote (fd s) (trace s) @ map snd rbs)
   \<and> (length port < buf_max \<and> h \<noteq> - 1 \<and> (\<forall>tr. serialport_init e tr port 9600 = h)
        \<and> (\<forall>tr. fopen e tr name = Some []) \<longrightarrow>
      printed (trace_of (main e b_init 5 [Opt_q, Opt_p port, Opt_f name])) =
        byte_char b_init # ''end of file reached'' @ nl @ nl)"
proof (intro conjI impI)
  show "\<exists>rest. trace (fst (snd (stream_body e r s a))) =
        trace s @ ReadByteFile 10000 (fst r) (snd r)
          # Stdout [byte_char (store (snd r) (var_b s))] # rest"
    by (simp add: stream_body_def Let_def emit_def)
next
  assume hyp: "(\<forall>rx\<in>set rbs. 0 \<le> fst rx \<and> fst rx \<noteq> 2)
        \<and> (\<forall>tr h x. serialport_writebyte e tr h x = 0)"
  have loop: "stream_loop e (map data_outcome rbs) s 0 =
     (s\<lparr>rc := 2, var_b := last (var_b s # map snd rbs),
        trace := trace s @ relay_trace (fd s) 0 rbs
                   @ eof_trace (fd s) None (last (var_b s # map snd rbs))\<rparr>,
      to_short (int (0 + length rbs)))"
    using stream_loop_data [where k = 0 and s = s and e = e and rbs = rbs] hyp
    by (simp add: to_short_def)
  show "printed (trace (fst (stream_loop e (map data_outcome rbs) s 0))) =
        printed (trace s) @ map (byte_char \<circ> snd) rbs
          @ byte_char (last (var_b s # map snd rbs)) # ''end of file reached'' @ nl"
    by (simp add: loop printed_append printed_relay_trace eof_trace_def)
  show "wrote (fd s) (trace (fst (stream_loop e (map data_outcome rbs) s 0))) =
        wrote (fd s) (trace s) @ map snd rbs"
    by (simp add: loop wrote_append wrote_relay_trace eof_trace_def)
next
  assume "length port < buf_max \<and> h \<noteq> - 1 \<and> (\<forall>tr. serialport_init e tr port 9600 = h)
        \<and> (\<forall>tr. fopen e tr name = Some [])"
  with empty_file_echo [of port h e name b_init]
  show "printed (trace_of (main e b_init 5 [Opt_q, Opt_p port, Opt_f name])) =
        byte_char b_init # ''end of file reached'' @ nl @ nl"
    by blast
qed

text \<open>C9, an instance: a one byte file, and an empty file read with 0x2A in the byte
  variable.\<close>

theorem streamer_echo_before_check_witness:
  "printed (trace (fst (stream_loop env_ok (map data_outcome [(0, 0x68)]) (opened\<lparr>trace := []\<rparr>) 0)))
       = [byte_char 0x68, byte_char 0x68] @ ''end of file reached'' @ nl
   \<and> wrote 3 (trace (fst (stream_loop env_ok (map data_outcome [(0, 0x68)]) (opened\<lparr>trace := []\<rparr>) 0)))
       = [0x68]
   \<and> printed (trace (fst (stream_loop env_ok (map data_outcome []) (opened\<lparr>trace := [], var_b := 0x2A\<rparr>) 0)))
       = [byte_char 0x2A] @ ''end of file reached'' @ nl
   \<and> wrote 3 (trace (fst (stream_loop env_ok (map data_outcome []) (opened\<lparr>trace := [], var_b := 0x2A\<rparr>) 0)))
       = []"
  using streamer_echo_before_check [where e = env_ok and s = "opened\<lparr>trace := []\<rparr>"
      and rbs = "[(0, 0x68)]"]
    streamer_echo_before_check [where e = env_ok and s = "opened\<lparr>trace := [], var_b := 0x2A\<rparr>"
      and rbs = "[]"]
  by (simp add: env_defs init_state_def)

subsection \<open>C10: a port is flushed right after it is opened\<close>

text \<open>
  C10. In every run, each \<^verbatim>\<open>serialport_init\<close> that returns a handle is followed, with
  nothing but console output in between, by \<^verbatim>\<open>serialport_flush\<close> on that handle: no
  other operation reaches a handle before its flush. The step of option p with a port that
  opens as \<open>h\<close> ends with that flush and leaves \<open>h\<close> as the handle.
\<close>

theorem open_then_flush:
  "opens_flushed (trace_of (main e b_init argc opts))
   \<and> (length port < buf_max \<and> h \<noteq> - 1 \<and> (\<forall>tr. serialport_init e tr port (baudrate s) = h) \<longrightarrow>
        step e s (Opt_p port) =
          Running (s\<lparr>fd := h, serialport := port,
            trace := trace s
              @ (if fd s = - 1 then []
                 else Close (fd s)
                   # (if quiet s then [] else [Stdout (''closed port '' @ serialport s @ nl)]))
              @ Init port (baudrate s) h
                # (if quiet s then [] else [Stdout (''opened port '' @ port @ nl)])
              @ [Flush h]\<rparr>))"
proof (intro conjI impI)
  show "opens_flushed (trace_of (main e b_init argc opts))"
  proof (cases "main e b_init argc opts")
    case (Exited k s')
    then have "final k s'"
      by (rule main_final)
    with Exited show ?thesis
      by (simp add: final_def)
  next
    case (Running s')
    then show ?thesis
      by (simp add: main_not_Running)
  qed simp_all
next
  assume "length port < buf_max \<and> h \<noteq> - 1 \<and> (\<forall>tr. serialport_init e tr port (baudrate s) = h)"
  then show "step e s (Opt_p port) =
          Running (s\<lparr>fd := h, serialport := port,
            trace := trace s
              @ (if fd s = - 1 then []
                 else Close (fd s)
                   # (if quiet s then [] else [Stdout (''closed port '' @ serialport s @ nl)]))
              @ Init port (baudrate s) h
                # (if quiet s then [] else [Stdout (''opened port '' @ port @ nl)])
              @ [Flush h]\<rparr>)"
    by (simp add: case_p_def Let_def say_def emit_def error_def)
qed

text \<open>C10, an instance: a run that opens two ports, and the reopening step.\<close>

theorem open_then_flush_witness:
  "opens_flushed (trace_of (main env_ok 0 6 [Opt_p ''ttyA'', Opt_s ''x'', Opt_p ''ttyB'']))
   \<and> length ''ttyB'' < buf_max \<and> (3::int) \<noteq> - 1
   \<and> step env_ok opened (Opt_p ''ttyB'') =
       Running (opened\<lparr>serialport := ''ttyB'',
         trace := trace opened @
           [Close 3, Stdout (''closed port tty'' @ nl), Init ''ttyB'' 9600 3,
            Stdout (''opened port ttyB'' @ nl), Flush 3]\<rparr>)"
  using open_then_flush [where e = env_ok and b_init = 0 and argc = 6
      and opts = "[Opt_p ''ttyA'', Opt_s ''x'', Opt_p ''ttyB'']" and s = opened
      and port = "''ttyB''" and h = 3]
  by (simp add: env_defs init_state_def buf_max_def nl_def)

end
